theory Spec2Isabelle
  imports Main "HOL-Library.Sublist" "HOL-Library.Multiset"
begin

section \<open>Values of the Go program\<close>

text \<open>
  A Go \<^verbatim>\<open>[]byte\<close> and a Go \<^verbatim>\<open>string\<close> are byte sequences: both are \<open>string\<close> here.
  The line feed is the byte 10.
\<close>

type_synonym bytes = string

abbreviation LF :: char where
  "LF \<equiv> CHR 0x0A"

text \<open>
  A Go \<^verbatim>\<open>error\<close> that is not nil. \<^verbatim>\<open>errors.New\<close> and \<^verbatim>\<open>fmt.Errorf\<close> give an
  \<open>ErrorString\<close>; \<^verbatim>\<open>multierr.Append\<close> gives a \<open>MultiError\<close> with the flattened list of the
  errors it combines (here always \<^verbatim>\<open>errors.New\<close> values, kept as their messages).
  A nil error is \<open>None\<close> of \<open>error option\<close>.
\<close>

datatype error = ErrorString string | MultiError "string list"

fun joinWith :: "string \<Rightarrow> string list \<Rightarrow> string" where
  "joinWith sep [] = []"
| "joinWith sep [x] = x"
| "joinWith sep (x # y # ys) = x @ sep @ joinWith sep (y # ys)"

fun Error :: "error \<Rightarrow> string" where
  "Error (ErrorString s) = s"
| "Error (MultiError ms) = joinWith ''; '' ms"

text \<open>
  \<^verbatim>\<open>multierr.Append(left, right)\<close>: nil on one side returns the other side; two single
  errors give a multi-error of both; a multi-error on the left is extended.
\<close>

fun errorList :: "error \<Rightarrow> string list" where
  "errorList (ErrorString s) = [s]"
| "errorList (MultiError ms) = ms"

fun Append :: "error option \<Rightarrow> error option \<Rightarrow> error option" where
  "Append None right = right"
| "Append (Some l) None = Some l"
| "Append (Some l) (Some r) = Some (MultiError (errorList l @ errorList r))"

text \<open>
  An \<^verbatim>\<open>interface{}\<close> value as the decoders and the policy engine produce it.
\<close>

datatype "value" =
    VNull
  | VBool bool
  | VNumber int
  | VString string
  | VArray "value list"
  | VObject "(string \<times> value) list"

text \<open>A Go call either returns or panics.\<close>

datatype 'a go = Panic | Return 'a

section \<open>bytes.Split and filepath.Ext\<close>

text \<open>
  \<^verbatim>\<open>bytes.Index(s, sep)\<close> is the index of the first instance of \<open>sep\<close> in \<open>s\<close>;
  Go's -1 is \<open>None\<close>.
\<close>

fun Index :: "bytes \<Rightarrow> bytes \<Rightarrow> nat option" where
  "Index [] sep = (if sep = [] then Some 0 else None)"
| "Index (c # cs) sep =
     (if prefix sep (c # cs) then Some 0 else map_option Suc (Index cs sep))"

text \<open>
  \<^verbatim>\<open>bytes.Split(s, sep)\<close> is \<^verbatim>\<open>genSplit(s, sep, 0, -1)\<close>: while \<open>sep\<close> occurs in the rest of
  \<open>s\<close>, the bytes before its first instance become a part and the scan goes on behind
  the instance; what is left is the last part. (The loop bound \<^verbatim>\<open>Count(s, sep)\<close> is the number of
  times this scan finds \<open>sep\<close>.) With an empty separator Go explodes \<open>s\<close> into its
  characters, single bytes for ASCII data; \<open>loadConfigs\<close> never passes an empty separator.
\<close>

function Split :: "bytes \<Rightarrow> bytes \<Rightarrow> bytes list" where
  "Split s sep =
     (if sep = [] then map (\<lambda>c. [c]) s
      else case Index s sep of
             None \<Rightarrow> [s]
           | Some m \<Rightarrow> take m s # Split (drop (m + length sep) s) sep)"
  by pat_completeness auto
termination
proof (relation "measure (\<lambda>(s, sep). length s)")
  show "wf (measure (\<lambda>(s, sep). length s))" by simp
next
  fix s sep :: bytes and m :: nat
  assume sep: "sep \<noteq> []" and found: "Index s sep = Some m"
  have bound: "Index t sep = Some k \<Longrightarrow> k + length sep \<le> length t" for t k
  proof (induction t arbitrary: k)
    case Nil
    then show ?case by (simp split: if_splits)
  next
    case (Cons c cs)
    show ?case
    proof (cases "prefix sep (c # cs)")
      case True
      with Cons.prems have "k = 0" by simp
      with prefix_length_le [OF True] show ?thesis by simp
    next
      case False
      with Cons.prems obtain j where "Index cs sep = Some j" "k = Suc j" by auto
      with Cons.IH show ?thesis by fastforce
    qed
  qed
  from sep found have "m + length sep \<le> length s" and "0 < length sep"
    by (simp_all add: bound)
  then have "length s - (m + length sep) < length s"
    by arith
  then show "((drop (m + length sep) s, sep), (s, sep)) \<in> measure (\<lambda>(s, sep). length s)"
    by simp
qed

declare Split.simps [simp del]

text \<open>
  \<^verbatim>\<open>filepath.Ext(path)\<close>: scanning from the last byte towards the first and stopping at a
  path separator, the suffix that begins at the first dot met; empty when there is none.
  \<open>extScan\<close> takes the bytes not yet visited in reverse and the bytes already visited.
\<close>

fun extScan :: "string \<Rightarrow> string \<Rightarrow> string" where
  "extScan [] seen = []"
| "extScan (c # rs) seen =
     (if c = CHR ''/'' then []
      else if c = CHR ''.'' then c # seen
      else extScan rs (c # seen))"

definition Ext :: "string \<Rightarrow> string" where
  "Ext path = extScan (rev path) []"

section \<open>pkg/parsers\<close>

text \<open>
  \<^verbatim>\<open>yaml.Unmarshal\<close> is an external decoder: it is a parameter \<open>unmarshal\<close> that maps the
  bytes to the decoded value or to an error. A \<open>Parser\<close> returns the value it would store
  through the pointer.
\<close>

type_synonym Parser = "bytes \<Rightarrow> error + value"

definition parseYAML :: "(bytes \<Rightarrow> error + value) \<Rightarrow> Parser" where
  "parseYAML unmarshal bs =
     (case unmarshal bs of
        Inl err \<Rightarrow> Inl (ErrorString (''unable to parse yaml: '' @ Error err))
      | Inr v \<Rightarrow> Inr v)"

definition Get :: "(bytes \<Rightarrow> error + value) \<Rightarrow> string \<Rightarrow> error + Parser" where
  "Get unmarshal fileName =
     (let suffix = Ext fileName in
      if suffix = ''.yaml'' \<or> suffix = ''.yml'' \<or> suffix = ''.json''
      then Inr (parseYAML unmarshal)
      else Inl (ErrorString (''unable to find Parser for file: '' @ fileName)))"


section \<open>Regular expressions of package regexp\<close>

text \<open>
  The two patterns of the checker use literals, a character class, \<^verbatim>\<open>?\<close> and \<^verbatim>\<open>*\<close>.
  \<open>Zero\<close> (no string), \<open>One\<close> (the empty string) and \<open>Alt\<close> close the syntax under
  derivatives. \<open>Range lo hi\<close> is one byte between \<open>lo\<close> and \<open>hi\<close>.
\<close>

datatype regexp =
    Zero
  | One
  | Lit char
  | Range char char
  | Alt regexp regexp
  | Cat regexp regexp
  | Star regexp

definition Quest :: "regexp \<Rightarrow> regexp" where
  "Quest r = Alt r One"

fun literal :: "string \<Rightarrow> regexp" where
  "literal [] = One"
| "literal (c # cs) = Cat (Lit c) (literal cs)"

definition inRange :: "char \<Rightarrow> char \<Rightarrow> char \<Rightarrow> bool" where
  "inRange lo hi c \<longleftrightarrow> (of_char lo :: nat) \<le> of_char c \<and> (of_char c :: nat) \<le> of_char hi"

fun nullable :: "regexp \<Rightarrow> bool" where
  "nullable Zero = False"
| "nullable One = True"
| "nullable (Lit c) = False"
| "nullable (Range lo hi) = False"
| "nullable (Alt r s) = (nullable r \<or> nullable s)"
| "nullable (Cat r s) = (nullable r \<and> nullable s)"
| "nullable (Star r) = True"

fun deriv :: "char \<Rightarrow> regexp \<Rightarrow> regexp" where
  "deriv c Zero = Zero"
| "deriv c One = Zero"
| "deriv c (Lit d) = (if c = d then One else Zero)"
| "deriv c (Range lo hi) = (if inRange lo hi c then One else Zero)"
| "deriv c (Alt r s) = Alt (deriv c r) (deriv c s)"
| "deriv c (Cat r s) =
     (if nullable r then Alt (Cat (deriv c r) s) (deriv c s) else Cat (deriv c r) s)"
| "deriv c (Star r) = Cat (deriv c r) (Star r)"

text \<open>\<open>matchPrefix re s\<close>: some prefix of \<open>s\<close> matches \<open>re\<close>.\<close>

fun matchPrefix :: "regexp \<Rightarrow> string \<Rightarrow> bool" where
  "matchPrefix re [] = nullable re"
| "matchPrefix re (c # cs) = (nullable re \<or> matchPrefix (deriv c re) cs)"

text \<open>
  \<^verbatim>\<open>re.MatchString(s)\<close> reports whether \<open>s\<close> contains any match of \<open>re\<close>: the match may
  begin at any position of \<open>s\<close> and end at any later one.
\<close>

fun MatchString :: "regexp \<Rightarrow> string \<Rightarrow> bool" where
  "MatchString re [] = matchPrefix re []"
| "MatchString re (c # cs) = (matchPrefix re (c # cs) \<or> MatchString re cs)"

text \<open>
  The strings a pattern matches, as the syntax of package regexp describes them:
  concatenation, alternation and repetition of languages.
\<close>

definition conc :: "string set \<Rightarrow> string set \<Rightarrow> string set" where
  "conc A B = {u @ v |u v. u \<in> A \<and> v \<in> B}"

inductive_set star :: "string set \<Rightarrow> string set" for A :: "string set" where
  star_Nil: "[] \<in> star A"
| star_App: "u \<in> A \<Longrightarrow> v \<in> star A \<Longrightarrow> u @ v \<in> star A"

fun lang :: "regexp \<Rightarrow> string set" where
  "lang Zero = {}"
| "lang One = {[]}"
| "lang (Lit c) = {[c]}"
| "lang (Range lo hi) = {[c] |c. inRange lo hi c}"
| "lang (Alt r s) = lang r \<union> lang s"
| "lang (Cat r s) = conc (lang r) (lang s)"
| "lang (Star r) = star (lang r)"

section \<open>pkg: the checker\<close>

text \<open>The patterns \<^verbatim>\<open>deny_?[a-zA-Z]*\<close> and \<^verbatim>\<open>warn_?[a-zA-Z]*\<close>.\<close>

definition letters :: regexp where
  "letters = Alt (Range CHR ''a'' CHR ''z'') (Range CHR ''A'' CHR ''Z'')"

definition failQ :: regexp where
  "failQ = Cat (literal ''deny'') (Cat (Quest (Lit CHR ''_'')) (Star letters))"

definition warnQ :: regexp where
  "warnQ = Cat (literal ''warn'') (Cat (Quest (Lit CHR ''_'')) (Star letters))"

text \<open>
  What the checker reads of the policy engine's syntax trees: a rule has the name of its
  head (\<^verbatim>\<open>r.Head.Name.String()\<close>), a module has its rules in source order, and the compiler
  has its modules in a Go map from file names.
\<close>

datatype Rule = Rule (HeadName: string)

datatype Module = Module (Rules: "Rule list")

datatype Compiler = Compiler (Modules: "string \<rightharpoonup> Module")

text \<open>
  A \<^verbatim>\<open>rego.Rego\<close> object holds the options it was built from; a \<^verbatim>\<open>rego.Result\<close> holds the
  values of its expressions.
\<close>

record Rego =
  Query :: string
  RegoCompiler :: Compiler
  Input :: "value"

datatype Result = Result (Expressions: "value list")

datatype FileInfo = FileInfo (Name: string) (IsDir: bool)

text \<open>
  The external collaborators: the file system (\<^verbatim>\<open>filepath.Abs\<close>, \<^verbatim>\<open>filepath.Dir\<close>,
  \<^verbatim>\<open>ioutil.ReadFile\<close>, \<^verbatim>\<open>os.Stat\<close>, \<^verbatim>\<open>ioutil.ReadDir\<close>), the decoder (\<^verbatim>\<open>yaml.Unmarshal\<close>)
  and the policy engine (\<^verbatim>\<open>ast.ParseModule\<close>; \<^verbatim>\<open>ast.Compiler.Compile\<close>, whose result is
  \<^verbatim>\<open>a.Errors\<close> when \<^verbatim>\<open>a.Failed()\<close>; \<^verbatim>\<open>PrepareForEval\<close>; \<^verbatim>\<open>Eval\<close>). The context is
  \<^verbatim>\<open>context.Background()\<close>, which is never cancelled, and is left out.
\<close>

record env =
  Abs :: "string \<Rightarrow> error + string"
  Dir :: "string \<Rightarrow> string"
  ReadFile :: "string \<Rightarrow> error + bytes"
  Stat :: "string \<Rightarrow> error + FileInfo"
  ReadDir :: "string \<Rightarrow> error + FileInfo list"
  Unmarshal :: "bytes \<Rightarrow> error + value"
  ParseModule :: "string \<Rightarrow> string \<Rightarrow> error + Module"
  Compile :: "(string \<rightharpoonup> Module) \<Rightarrow> error + Compiler"
  PrepareForEval :: "Rego \<Rightarrow> error + Rego"
  Eval :: "Rego \<Rightarrow> error + Result list"

text \<open>
  The iteration order of a Go map is not specified and may differ from one \<^verbatim>\<open>range\<close>
  statement to the next. A map is a partial function; each \<^verbatim>\<open>range\<close> over it takes the
  list of keys in the order the runtime visits them. \<open>visits m ks\<close> says that \<open>ks\<close> is such
  an order for \<open>m\<close>: every key once.
\<close>

definition visits :: "('k \<rightharpoonup> 'v) \<Rightarrow> 'k list \<Rightarrow> bool" where
  "visits m ks \<longleftrightarrow> distinct ks \<and> set ks = dom m"

record ConfChecker =
  namespace :: string
  policyDir :: string
  configs :: "string list"

definition NewConfChecker :: "string \<Rightarrow> string \<Rightarrow> string list \<Rightarrow> ConfChecker" where
  "NewConfChecker ns pd cs = \<lparr>namespace = ns, policyDir = pd, configs = cs\<rparr>"

record CheckResult =
  Failures :: "error option list"
  Warnings :: "error option list"

type_synonym CheckResults = "string \<rightharpoonup> CheckResult"

subsection \<open>runQuery\<close>

definition hasResults :: "value \<Rightarrow> bool" where
  "hasResults expression = (case expression of VArray v \<Rightarrow> length v > 0 | _ \<Rightarrow> False)"

definition Query_Build :: "string \<Rightarrow> Compiler \<Rightarrow> value \<Rightarrow> error + Rego" where
  "Query_Build q compiler inp = Inr \<lparr>Query = q, RegoCompiler = compiler, Input = inp\<rparr>"

text \<open>
  The loop over \<^verbatim>\<open>value.([]interface{})\<close>: the type assertion \<^verbatim>\<open>v.(string)\<close> has no
  \<^verbatim>\<open>ok\<close> result, so it panics on an element that is not a string.
\<close>

fun appendValues :: "error option \<Rightarrow> value list \<Rightarrow> error option go" where
  "appendValues err [] = Return err"
| "appendValues err (v # vs) =
     (case v of
        VString s \<Rightarrow> appendValues (Append err (Some (ErrorString s))) vs
      | _ \<Rightarrow> Panic)"

text \<open>The loop over \<^verbatim>\<open>r.Expressions\<close>.\<close>

fun appendExpressions :: "error option \<Rightarrow> value list \<Rightarrow> error option go" where
  "appendExpressions err [] = Return err"
| "appendExpressions err (e # es) =
     (if hasResults e then
        (case e of
           VArray vs \<Rightarrow>
             (case appendValues err vs of
                Panic \<Rightarrow> Panic
              | Return err' \<Rightarrow> appendExpressions err' es)
         | _ \<Rightarrow> Panic)
      else appendExpressions err es)"

text \<open>The loop over the result set \<^verbatim>\<open>rr\<close>.\<close>

fun appendResults :: "error option \<Rightarrow> Result list \<Rightarrow> error option go" where
  "appendResults err [] = Return err"
| "appendResults err (r # rr) =
     (case appendExpressions err (Expressions r) of
        Panic \<Rightarrow> Panic
      | Return err' \<Rightarrow> appendResults err' rr)"

definition runQuery :: "env \<Rightarrow> string \<Rightarrow> value \<Rightarrow> Compiler \<Rightarrow> error option go" where
  "runQuery ev query inp compiler =
     (case Query_Build query compiler inp of
        Inl err \<Rightarrow> Return (Some (ErrorString (''error constructing query : '' @ Error err)))
      | Inr rq \<Rightarrow>
          (case PrepareForEval ev rq of
             Inl err \<Rightarrow>
               Return (Some (ErrorString (''error preparing for evaluation: '' @ Error err)))
           | Inr pq \<Rightarrow>
               (case Eval ev pq of
                  Inl err \<Rightarrow>
                    Return (Some (ErrorString (''error evaluating rules: '' @ Error err)))
                | Inr rr \<Rightarrow> appendResults None rr)))"

subsection \<open>The classifier of processFile\<close>

text \<open>
  The loop over \<^verbatim>\<open>m.Rules\<close>: the name goes to \<open>wQueries\<close> when \<open>warnQ\<close> matches it and
  to \<open>fQueries\<close> when \<open>failQ\<close> matches it. The pair is \<open>(fQueries, wQueries)\<close>.
\<close>

fun classifyRules :: "Rule list \<Rightarrow> string list \<times> string list \<Rightarrow> string list \<times> string list" where
  "classifyRules [] (fQueries, wQueries) = (fQueries, wQueries)"
| "classifyRules (r # rs) (fQueries, wQueries) =
     (let n = HeadName r;
          wQueries' = (if MatchString warnQ n then wQueries @ [n] else wQueries);
          fQueries' = (if MatchString failQ n then fQueries @ [n] else fQueries)
      in classifyRules rs (fQueries', wQueries'))"

text \<open>The loop over \<^verbatim>\<open>compiler.Modules\<close>, a Go map, whose keys are visited in the order \<open>ks\<close>.\<close>

fun classifyModules ::
  "(string \<rightharpoonup> Module) \<Rightarrow> string list \<Rightarrow> string list \<times> string list \<Rightarrow> string list \<times> string list" where
  "classifyModules ms [] acc = acc"
| "classifyModules ms (k # ks) acc =
     (case ms k of
        None \<Rightarrow> classifyModules ms ks acc
      | Some m \<Rightarrow> classifyModules ms ks (classifyRules (Rules m) acc))"

definition classify :: "Compiler \<Rightarrow> string list \<Rightarrow> string list \<times> string list" where
  "classify compiler ks = classifyModules (Modules compiler) ks ([], [])"

text \<open>The names of the rules of the module stored under \<open>k\<close>, in source order.\<close>

definition ruleNames :: "(string \<rightharpoonup> Module) \<Rightarrow> string \<Rightarrow> string list" where
  "ruleNames ms k = (case ms k of None \<Rightarrow> [] | Some m \<Rightarrow> map HeadName (Rules m))"

subsection \<open>processFile\<close>

text \<open>
  A policy-evaluation call is a call of \<open>runQuery\<close>; the calls are recorded in the order they
  are made, each with its query and its input.
\<close>

type_synonym call = "string \<times> value"

text \<open>
  The loop \<^verbatim>\<open>for _, fq := range fQueries\<close> (and likewise \<open>wQueries\<close>): every result of
  \<open>runQuery\<close>, nil or not, is appended. \<open>queryOf\<close> is
  \<^verbatim>\<open>fmt.Sprintf("data.%s.%s", namespace, fq)\<close>.
\<close>

definition queryOf :: "string \<Rightarrow> string \<Rightarrow> string" where
  "queryOf ns q = ''data.'' @ ns @ ''.'' @ q"

fun runQueries ::
  "env \<Rightarrow> string \<Rightarrow> value \<Rightarrow> Compiler \<Rightarrow> string list \<Rightarrow> error option list \<times> call list
     \<Rightarrow> error option list go \<times> call list" where
  "runQueries ev ns inp compiler [] (acc, calls) = (Return acc, calls)"
| "runQueries ev ns inp compiler (q # qs) (acc, calls) =
     (let query = queryOf ns q;
          calls' = calls @ [(query, inp)]
      in case runQuery ev query inp compiler of
           Panic \<Rightarrow> (Panic, calls')
         | Return e \<Rightarrow> runQueries ev ns inp compiler qs (acc @ [e], calls'))"

text \<open>The loop over the parts of the file.\<close>

fun processParts ::
  "env \<Rightarrow> string \<Rightarrow> Parser \<Rightarrow> Compiler \<Rightarrow> string list \<Rightarrow> string list \<Rightarrow> bytes list
     \<Rightarrow> error option list \<times> error option list \<times> call list
     \<Rightarrow> (error + error option list \<times> error option list) go \<times> call list" where
  "processParts ev ns p compiler fQueries wQueries [] (fails, warns, calls) =
     (Return (Inr (fails, warns)), calls)"
| "processParts ev ns p compiler fQueries wQueries (part # parts) (fails, warns, calls) =
     (case p part of
        Inl err \<Rightarrow> (Return (Inl err), calls)
      | Inr inp \<Rightarrow>
          (case runQueries ev ns inp compiler fQueries (fails, calls) of
             (Panic, calls1) \<Rightarrow> (Panic, calls1)
           | (Return fails1, calls1) \<Rightarrow>
               (case runQueries ev ns inp compiler wQueries (warns, calls1) of
                  (Panic, calls2) \<Rightarrow> (Panic, calls2)
                | (Return warns1, calls2) \<Rightarrow>
                    processParts ev ns p compiler fQueries wQueries parts
                      (fails1, warns1, calls2))))"

text \<open>
  \<open>processFile\<close> returns what the Go function returns (the error, or the failures and the
  warnings) or panics, together with the evaluation calls it made. \<open>ks\<close> is the order in
  which this call visits \<^verbatim>\<open>compiler.Modules\<close>.
\<close>

definition processFile ::
  "env \<Rightarrow> string \<Rightarrow> string \<Rightarrow> bytes list \<Rightarrow> Compiler \<Rightarrow> string list
     \<Rightarrow> (error + error option list \<times> error option list) go \<times> call list" where
  "processFile ev ns fileName parts compiler ks =
     (case Get (Unmarshal ev) fileName of
        Inl err \<Rightarrow> (Return (Inl err), [])
      | Inr p \<Rightarrow>
          (let (fQueries, wQueries) = classify compiler ks
           in processParts ev ns p compiler fQueries wQueries parts ([], [], [])))"

subsection \<open>loadConfigs\<close>

definition separator :: bytes where
  "separator = [LF, CHR ''-'', CHR ''-'', CHR ''-'', LF]"

fun loadConfigsFrom ::
  "env \<Rightarrow> string list \<Rightarrow> (string \<rightharpoonup> bytes list) \<Rightarrow> error + (string \<rightharpoonup> bytes list)" where
  "loadConfigsFrom ev [] res = Inr res"
| "loadConfigsFrom ev (f # files) res =
     (case Abs ev f of
        Inl err \<Rightarrow> Inl err
      | Inr filePath \<Rightarrow>
          (case ReadFile ev filePath of
             Inl err \<Rightarrow> Inl (ErrorString (''unable to open file '' @ f @ '': '' @ Error err))
           | Inr data \<Rightarrow>
               (let parts = Split data separator
                in loadConfigsFrom ev files (res(filePath \<mapsto> parts)))))"

definition loadConfigs :: "env \<Rightarrow> string list \<Rightarrow> error + (string \<rightharpoonup> bytes list)" where
  "loadConfigs ev files = loadConfigsFrom ev files Map.empty"

subsection \<open>The compiler: readPolicies and Build\<close>

definition HasSuffix :: "string \<Rightarrow> string \<Rightarrow> bool" where
  "HasSuffix s sfx = suffix sfx s"

text \<open>The loop over \<open>files\<close> in \<open>readPolicies\<close>.\<close>

fun readModules ::
  "env \<Rightarrow> string \<Rightarrow> FileInfo list \<Rightarrow> (string \<rightharpoonup> Module) \<Rightarrow> error + (string \<rightharpoonup> Module)" where
  "readModules ev dirPath [] ms = Inr ms"
| "readModules ev dirPath (file # files) ms =
     (if \<not> HasSuffix (Name file) ''.rego'' then readModules ev dirPath files ms
      else
        (case ReadFile ev (dirPath @ ''/'' @ Name file) of
           Inl err \<Rightarrow> Inl err
         | Inr out \<Rightarrow>
             (case ParseModule ev (Name file) out of
                Inl err \<Rightarrow> Inl err
              | Inr parsed \<Rightarrow> readModules ev dirPath files (ms(Name file \<mapsto> parsed)))))"

definition readPolicies :: "env \<Rightarrow> string \<Rightarrow> error + (string \<rightharpoonup> Module)" where
  "readPolicies ev pPath =
     (case Stat ev pPath of
        Inl err \<Rightarrow>
          Inl (ErrorString (''error loading policies from '' @ pPath @ '': '' @ Error err))
      | Inr info \<Rightarrow>
          (if IsDir info then
             (case ReadDir ev pPath of
                Inl err \<Rightarrow>
                  Inl (ErrorString (''error loading policies from '' @ pPath @ '': '' @ Error err))
              | Inr files \<Rightarrow> readModules ev pPath files Map.empty)
           else readModules ev (Dir ev pPath) [info] Map.empty))"

definition Compiler_Build :: "env \<Rightarrow> string \<Rightarrow> error + Compiler" where
  "Compiler_Build ev pd =
     (case readPolicies ev pd of
        Inl err \<Rightarrow> Inl err
      | Inr ps \<Rightarrow> Compile ev ps)"

subsection \<open>Run\<close>

text \<open>
  The orders in which the \<^verbatim>\<open>range\<close> statements of one run visit their maps: the files in
  \<open>Run\<close>, the modules in the call of \<open>processFile\<close> for each file, and the results in
  \<open>confCheck\<close>.
\<close>

record schedule =
  fileOrder :: "string list"
  moduleOrder :: "string \<Rightarrow> string list"
  resultOrder :: "string list"

text \<open>The loop of \<open>Run\<close> over \<open>cfs\<close>.\<close>

fun runFiles ::
  "env \<Rightarrow> string \<Rightarrow> Compiler \<Rightarrow> (string \<rightharpoonup> bytes list) \<Rightarrow> (string \<Rightarrow> string list)
     \<Rightarrow> string list \<Rightarrow> CheckResults \<Rightarrow> (CheckResults \<times> error option) go" where
  "runFiles ev ns compiler cfs mo [] res = Return (res, None)"
| "runFiles ev ns compiler cfs mo (name # names) res =
     (case cfs name of
        None \<Rightarrow> runFiles ev ns compiler cfs mo names res
      | Some parts \<Rightarrow>
          (case fst (processFile ev ns name parts compiler (mo name)) of
             Panic \<Rightarrow> Panic
           | Return (Inl err) \<Rightarrow>
               Return (Map.empty,
                 Some (ErrorString (''error processiong file: '' @ Error err)))
           | Return (Inr (fs, ws)) \<Rightarrow>
               runFiles ev ns compiler cfs mo names
                 (res(name \<mapsto> \<lparr>Failures = fs, Warnings = ws\<rparr>))))"

definition Run :: "env \<Rightarrow> ConfChecker \<Rightarrow> schedule \<Rightarrow> (CheckResults \<times> error option) go" where
  "Run ev c sched =
     (case Compiler_Build ev (policyDir c) of
        Inl err \<Rightarrow> Return (Map.empty, Some (ErrorString (''error loading rules: '' @ Error err)))
      | Inr compiler \<Rightarrow>
          (case loadConfigs ev (configs c) of
             Inl err \<Rightarrow>
               Return (Map.empty, Some (ErrorString (''error loading configs: '' @ Error err)))
           | Inr cfs \<Rightarrow>
               runFiles ev (namespace c) compiler cfs (moduleOrder sched) (fileOrder sched)
                 Map.empty))"

section \<open>The command: confCheck and main\<close>

record args =
  args_policyDir :: string
  args_namespace :: string
  strict :: bool
  args_configs :: "string list"

text \<open>
  The printer writes one line per call. \<^verbatim>\<open>%s\<close> of a nil error prints \<^verbatim>\<open>%!s(<nil>)\<close>.
\<close>

definition fmtError :: "error option \<Rightarrow> string" where
  "fmtError e = (case e of None \<Rightarrow> ''%!s(<nil>)'' | Some err \<Rightarrow> Error err)"

definition printer_err :: "string \<Rightarrow> error option \<Rightarrow> string" where
  "printer_err file err = ''Failure: '' @ file @ '' - '' @ fmtError err"

definition printer_warning :: "string \<Rightarrow> error option \<Rightarrow> string" where
  "printer_warning file err = ''Warning: '' @ file @ '' - '' @ fmtError err"

definition printer_ok :: "string \<Rightarrow> string" where
  "printer_ok file = ''Passed: '' @ file"

fun printWarnings :: "bool \<Rightarrow> string \<Rightarrow> error option list \<Rightarrow> string list \<Rightarrow> string list" where
  "printWarnings st f [] out = out"
| "printWarnings st f (w # ws) out =
     printWarnings st f ws (out @ [if st then printer_err f w else printer_warning f w])"

text \<open>The loop over \<^verbatim>\<open>res.Failures\<close> assigns each failure to \<open>err\<close> and prints it.\<close>

fun printFailures ::
  "string \<Rightarrow> error option list \<Rightarrow> error option \<times> string list \<Rightarrow> error option \<times> string list" where
  "printFailures f [] (err, out) = (err, out)"
| "printFailures f (fa # fas) (err, out) = printFailures f fas (fa, out @ [printer_err f fa])"

fun printResults ::
  "bool \<Rightarrow> CheckResults \<Rightarrow> string list \<Rightarrow> error option \<times> string list
     \<Rightarrow> error option \<times> string list" where
  "printResults st cr [] (err, out) = (err, out)"
| "printResults st cr (f # fs) (err, out) =
     (case cr f of
        None \<Rightarrow> printResults st cr fs (err, out)
      | Some res \<Rightarrow>
          (let out1 = (if length (Warnings res) = 0 \<and> length (Failures res) = 0
                       then out @ [printer_ok f] else out);
               out2 = printWarnings st f (Warnings res) out1
           in printResults st cr fs (printFailures f (Failures res) (err, out2))))"

text \<open>
  \<open>confCheck\<close> returns its error result and the lines the printer wrote (the log line
  written when \<open>Run\<close> fails is not among them). After the loop it returns nil, whatever
  \<open>err\<close> holds.
\<close>

definition confCheck :: "env \<Rightarrow> args \<Rightarrow> schedule \<Rightarrow> (error option \<times> string list) go" where
  "confCheck ev a sched =
     (let cc = NewConfChecker (args_namespace a) (args_policyDir a) (args_configs a)
      in case Run ev cc sched of
           Panic \<Rightarrow> Panic
         | Return (cr, Some err) \<Rightarrow> Return (Some err, [])
         | Return (cr, None) \<Rightarrow>
             (let (err, out) = printResults (strict a) cr (resultOrder sched) (None, [])
              in Return (None, out)))"

text \<open>
  The exit status of the process once the command line is parsed into \<open>a\<close>: \<^verbatim>\<open>log.Fatal\<close>
  exits with 1 when \<open>confCheck\<close> returns an error, a panic exits with 2, and a normal
  return exits with 0.
\<close>

definition main :: "env \<Rightarrow> args \<Rightarrow> schedule \<Rightarrow> nat" where
  "main ev a sched =
     (case confCheck ev a sched of
        Panic \<Rightarrow> 2
      | Return (Some err, out) \<Rightarrow> 1
      | Return (None, out) \<Rightarrow> 0)"

section \<open>A small world to run the program in\<close>

text \<open>
  The example policy of the repository has the rules \<^verbatim>\<open>is_hpa\<close>, \<^verbatim>\<open>deny\<close> and \<^verbatim>\<open>warn\<close>.
\<close>

definition exampleModule :: Module where
  "exampleModule = Module [Rule ''is_hpa'', Rule ''deny'', Rule ''warn'']"

text \<open>
  The file system: a policy directory \<^verbatim>\<open>policies\<close> with the one file \<^verbatim>\<open>main.rego\<close>,
  the single policy files \<^verbatim>\<open>rules.txt\<close> and \<^verbatim>\<open>one.rego\<close>, and the configuration files
  \<^verbatim>\<open>/ok.yaml\<close> (one document), \<^verbatim>\<open>/two.yaml\<close> (two documents), \<^verbatim>\<open>/edge.yaml\<close> (a
  \<^verbatim>\<open>---\<close> line first and a \<^verbatim>\<open>---\<close> without line feed last), \<^verbatim>\<open>/bad.yaml\<close> (an
  unterminated flow mapping, which no YAML decoder accepts) and \<^verbatim>\<open>/ok.toml\<close>.
\<close>

definition edgeData :: bytes where
  "edgeData = ''---'' @ [LF] @ ''web'' @ [LF] @ ''---''"

definition exampleFiles :: "string \<Rightarrow> error + bytes" where
  "exampleFiles path =
     (if path = ''policies/main.rego'' \<or> path = ''./rules.txt'' \<or> path = ''./one.rego''
      then Inr ''package main''
      else if path = ''/ok.yaml'' \<or> path = ''/ok.toml'' then Inr ''web''
      else if path = ''/edge.yaml'' then Inr edgeData
      else if path = ''/two.yaml'' then Inr (''web'' @ separator @ ''hpa'')
      else if path = ''/bad.yaml'' then Inr ''{''
      else Inl (ErrorString ''no such file''))"

definition exampleStat :: "string \<Rightarrow> error + FileInfo" where
  "exampleStat path =
     (if path = ''policies'' then Inr (FileInfo ''policies'' True)
      else if path = ''rules.txt'' then Inr (FileInfo ''rules.txt'' False)
      else if path = ''one.rego'' then Inr (FileInfo ''one.rego'' False)
      else Inl (ErrorString ''no such file''))"

text \<open>The decoder on these files: a plain scalar decodes to a string.\<close>

definition exampleUnmarshal :: "bytes \<Rightarrow> error + value" where
  "exampleUnmarshal bs =
     (if bs = ''{'' then Inl (ErrorString ''did not find expected node content'')
      else Inr (VString bs))"

definition world :: "(Rego \<Rightarrow> error + Result list) \<Rightarrow> env" where
  "world engine =
     \<lparr>Abs = (\<lambda>f. Inr f),
      Dir = (\<lambda>p. ''.''),
      ReadFile = exampleFiles,
      Stat = exampleStat,
      ReadDir = (\<lambda>p. Inr [FileInfo ''main.rego'' False]),
      Unmarshal = exampleUnmarshal,
      ParseModule = (\<lambda>name src. Inr exampleModule),
      Compile = (\<lambda>ms. Inr (Compiler ms)),
      PrepareForEval = (\<lambda>rq. Inr rq),
      Eval = engine\<rparr>"

text \<open>
  Three engines: one for documents that violate nothing (every rule evaluates to the
  empty set), one where \<^verbatim>\<open>deny\<close> produces one message, and one where \<^verbatim>\<open>deny\<close> produces
  a number instead of a message.
\<close>

definition quietEngine :: "Rego \<Rightarrow> error + Result list" where
  "quietEngine rq = Inr [Result [VArray []]]"

definition denyingEngine :: "Rego \<Rightarrow> error + Result list" where
  "denyingEngine rq =
     (if Query rq = ''data.main.deny'' then Inr [Result [VArray [VString ''no HPA'']]]
      else Inr [Result [VArray []]])"

definition numberEngine :: "Rego \<Rightarrow> error + Result list" where
  "numberEngine rq =
     (if Query rq = ''data.main.deny'' then Inr [Result [VArray [VNumber 1]]]
      else Inr [Result [VArray []]])"

definition exampleCompiler :: Compiler where
  "exampleCompiler = Compiler [''main.rego'' \<mapsto> exampleModule]"

definition exampleArgs :: "string list \<Rightarrow> bool \<Rightarrow> args" where
  "exampleArgs files st =
     \<lparr>args_policyDir = ''policies'', args_namespace = ''main'', strict = st,
      args_configs = files\<rparr>"

definition exampleSchedule :: "string list \<Rightarrow> schedule" where
  "exampleSchedule files =
     \<lparr>fileOrder = files, moduleOrder = (\<lambda>name. [''main.rego'']), resultOrder = files\<rparr>"

text \<open>A rule-set of two modules, and one whose helper rule contains \<^verbatim>\<open>deny\<close> in its name.\<close>

definition twoModules :: Compiler where
  "twoModules =
     Compiler [''a.rego'' \<mapsto> Module [Rule ''deny_a''], ''b.rego'' \<mapsto> Module [Rule ''deny_b'']]"

definition helperModule :: Compiler where
  "helperModule = Compiler [''main.rego'' \<mapsto> Module [Rule ''is_denylisted'']]"

section \<open>Properties of the helpers\<close>

lemma extScan_suffix: "suffix (extScan rs seen) (rev rs @ seen)"
proof (induction rs arbitrary: seen)
  case Nil
  show ?case by simp
next
  case (Cons c rs)
  have "suffix (c # seen) (rev rs @ c # seen)"
    by (simp add: suffix_def)
  moreover have "suffix (extScan rs (c # seen)) (rev rs @ c # seen)"
    using Cons.IH [of "c # seen"] .
  ultimately show ?case by auto
qed

lemma Ext_suffix: "suffix (Ext path) path"
  using extScan_suffix [of "rev path" "[]"] by (simp add: Ext_def)

subsection \<open>Index and Split\<close>



lemma Index_None_iff: "Index s sep = None \<longleftrightarrow> \<not> sublist sep s"
proof (induction s)
  case Nil
  show ?case by simp
next
  case (Cons c cs)
  then show ?case by (auto simp: sublist_Cons_right)
qed


lemma Split_single:
  assumes "sep \<noteq> []" and "\<not> sublist sep s"
  shows "Split s sep = [s]"
proof -
  from assms(2) have "Index s sep = None" by (simp add: Index_None_iff)
  with assms(1) show ?thesis by (subst Split.simps) simp
qed








lemma separator_not_Nil: "separator \<noteq> []"
  by (simp add: separator_def)

section \<open>Document splitting\<close>








section \<open>Decoder selection\<close>

text \<open>
  Claim C9. The extensions \<^verbatim>\<open>.yaml\<close>, \<^verbatim>\<open>.yml\<close> and \<^verbatim>\<open>.json\<close> select the same decoder,
  \<open>parseYAML\<close>. For any other extension \<open>Get\<close> fails with the error
  \<^verbatim>\<open>unable to find Parser for file: <fileName>\<close>, whose message ends with the extension, and
  \<open>processFile\<close> returns that error without evaluating anything: the file is not skipped
  silently.
\<close>

theorem Get_selects_decoder_by_extension:
  "(Ext fileName \<in> {''.yaml'', ''.yml'', ''.json''} \<longrightarrow>
      Get (Unmarshal ev) fileName = Inr (parseYAML (Unmarshal ev))) \<and>
   (Ext fileName \<notin> {''.yaml'', ''.yml'', ''.json''} \<longrightarrow>
      Get (Unmarshal ev) fileName =
        Inl (ErrorString (''unable to find Parser for file: '' @ fileName)) \<and>
      suffix (Ext fileName) (''unable to find Parser for file: '' @ fileName) \<and>
      processFile ev ns fileName parts compiler ks =
        (Return (Inl (ErrorString (''unable to find Parser for file: '' @ fileName))), []))"
proof -
  have "suffix (Ext fileName) (''unable to find Parser for file: '' @ fileName)"
    using Ext_suffix [of fileName] by (rule suffix_appendI)
  then show ?thesis
    by (simp add: Get_def processFile_def Let_def)
qed

text \<open>The theorem at \<^verbatim>\<open>/ok.toml\<close> and at \<^verbatim>\<open>/ok.yaml\<close>.\<close>

theorem Get_selects_decoder_by_extension_witness:
  "Ext ''/ok.toml'' \<notin> {''.yaml'', ''.yml'', ''.json''} \<and>
   Get (Unmarshal (world quietEngine)) ''/ok.toml'' =
     Inl (ErrorString ''unable to find Parser for file: /ok.toml'') \<and>
   suffix ''.toml'' ''unable to find Parser for file: /ok.toml'' \<and>
   processFile (world quietEngine) ''main'' ''/ok.toml'' [''web''] exampleCompiler [''main.rego''] =
     (Return (Inl (ErrorString ''unable to find Parser for file: /ok.toml'')), []) \<and>
   Ext ''/ok.yaml'' \<in> {''.yaml'', ''.yml'', ''.json''} \<and>
   Get (Unmarshal (world quietEngine)) ''/ok.yaml'' = Inr (parseYAML (Unmarshal (world quietEngine)))"
proof -
  have toml: "Ext ''/ok.toml'' = ''.toml''" and yaml: "Ext ''/ok.yaml'' = ''.yaml''"
    by (simp_all add: Ext_def)
  from Get_selects_decoder_by_extension
         [of "''/ok.toml''" "world quietEngine" "''main''" "[''web'']" exampleCompiler "[''main.rego'']"]
       Get_selects_decoder_by_extension
         [of "''/ok.yaml''" "world quietEngine" "''main''" "[''web'']" exampleCompiler "[''main.rego'']"]
  show ?thesis unfolding toml yaml by simp
qed

section \<open>Evaluation calls\<close>

lemma runQueries_Return:
  "runQueries ev ns inp c qs (acc, calls) = (Return acc', calls') \<Longrightarrow>
     length acc' = length acc + length qs \<and>
     calls' = calls @ map (\<lambda>q. (queryOf ns q, inp)) qs"
proof (induction qs arbitrary: acc calls)
  case Nil
  then show ?case by simp
next
  case (Cons q qs)
  from Cons.prems obtain e where
    "runQueries ev ns inp c qs (acc @ [e], calls @ [(queryOf ns q, inp)]) = (Return acc', calls')"
    by (auto simp: Let_def split: go.splits)
  from Cons.IH [OF this] show ?case by simp
qed

lemma processParts_Return:
  "processParts ev ns p c fQ wQ parts (fails, warns, calls) = (Return (Inr (fs, ws)), calls') \<Longrightarrow>
     length fs = length fails + length parts * length fQ \<and>
     length ws = length warns + length parts * length wQ \<and>
     length calls' = length calls + length parts * (length fQ + length wQ)"
proof (induction parts arbitrary: fails warns calls)
  case Nil
  then show ?case by simp
next
  case (Cons part parts)
  from Cons.prems obtain inp where inp: "p part = Inr inp"
    by (auto split: sum.splits)
  obtain r1 calls1 where r1: "runQueries ev ns inp c fQ (fails, calls) = (r1, calls1)"
    by (cases "runQueries ev ns inp c fQ (fails, calls)")
  with Cons.prems inp obtain fails1 where f1: "r1 = Return fails1"
    by (cases r1) auto
  obtain r2 calls2 where r2: "runQueries ev ns inp c wQ (warns, calls1) = (r2, calls2)"
    by (cases "runQueries ev ns inp c wQ (warns, calls1)")
  with Cons.prems inp r1 f1 obtain warns1 where w1: "r2 = Return warns1"
    by (cases r2) auto
  from Cons.prems inp r1 f1 r2 w1
  have rest: "processParts ev ns p c fQ wQ parts (fails1, warns1, calls2) =
      (Return (Inr (fs, ws)), calls')"
    by simp
  from runQueries_Return [OF r1 [unfolded f1]]
  have a: "length fails1 = length fails + length fQ" "length calls1 = length calls + length fQ"
    by simp_all
  from runQueries_Return [OF r2 [unfolded w1]]
  have b: "length warns1 = length warns + length wQ" "length calls2 = length calls1 + length wQ"
    by simp_all
  from Cons.IH [OF rest] a b show ?case by (simp add: algebra_simps)
qed

lemma processFile_Return:
  assumes "processFile ev ns fileName parts compiler ks = (Return (Inr (fs, ws)), calls)"
    and "classify compiler ks = (fQ, wQ)"
  shows "length fs = length parts * length fQ"
    and "length ws = length parts * length wQ"
    and "length calls = length parts * (length fQ + length wQ)"
proof -
  from assms obtain p where
    "processParts ev ns p compiler fQ wQ parts ([], [], []) = (Return (Inr (fs, ws)), calls)"
    by (auto simp: processFile_def split: sum.splits)
  from processParts_Return [OF this]
  show "length fs = length parts * length fQ"
    and "length ws = length parts * length wQ"
    and "length calls = length parts * (length fQ + length wQ)"
    by simp_all
qed

lemma processFile_single_part:
  assumes "processFile ev ns fileName [data] compiler ks = (Return (Inr (fs, ws)), calls)"
    and "classify compiler ks = (fQ, wQ)"
  shows "\<exists>inp. Unmarshal ev data = Inr inp \<and> calls = map (\<lambda>q. (queryOf ns q, inp)) (fQ @ wQ)"
proof -
  from assms have get: "Get (Unmarshal ev) fileName = Inr (parseYAML (Unmarshal ev))"
    and pp: "processParts ev ns (parseYAML (Unmarshal ev)) compiler fQ wQ [data] ([], [], []) =
      (Return (Inr (fs, ws)), calls)"
    by (auto simp: processFile_def Get_def Let_def split: sum.splits if_splits)
  from pp obtain inp where inp: "parseYAML (Unmarshal ev) data = Inr inp"
    by (auto split: sum.splits)
  then have un: "Unmarshal ev data = Inr inp"
    by (auto simp: parseYAML_def split: sum.splits)
  obtain r1 calls1 where r1: "runQueries ev ns inp compiler fQ ([], []) = (r1, calls1)"
    by (cases "runQueries ev ns inp compiler fQ ([], [])")
  with pp inp obtain fails1 where f1: "r1 = Return fails1"
    by (cases r1) auto
  obtain r2 calls2 where r2: "runQueries ev ns inp compiler wQ ([], calls1) = (r2, calls2)"
    by (cases "runQueries ev ns inp compiler wQ ([], calls1)")
  with pp inp r1 f1 obtain warns1 where w1: "r2 = Return warns1"
    by (cases r2) auto
  from pp inp r1 f1 r2 w1 have "calls = calls2" by simp
  moreover from runQueries_Return [OF r1 [unfolded f1]]
  have "calls1 = map (\<lambda>q. (queryOf ns q, inp)) fQ" by simp
  moreover from runQueries_Return [OF r2 [unfolded w1]]
  have "calls2 = calls1 @ map (\<lambda>q. (queryOf ns q, inp)) wQ" by simp
  ultimately have "calls = map (\<lambda>q. (queryOf ns q, inp)) (fQ @ wQ)" by simp
  with un show ?thesis by blast
qed

text \<open>
  Claim C8, amended. When \<open>processFile\<close> returns the failures and the warnings of a file (its
  extension has a decoder, every part decodes and no evaluation panics), it has made exactly
  K * (N + M) evaluation calls, for the K parts of the file and the N denial and M warning
  names of the classifier. A file without the separator is one part, and every call then
  has the decoded whole file as its input.
\<close>

theorem processFile_evaluation_calls:
  assumes "processFile ev ns fileName (Split data separator) compiler ks =
      (Return (Inr (fails, warns)), calls)"
    and "classify compiler ks = (fQueries, wQueries)"
  shows "length calls = length (Split data separator) * (length fQueries + length wQueries) \<and>
    (\<not> sublist separator data \<longrightarrow>
       Split data separator = [data] \<and>
       (\<exists>inp. Unmarshal ev data = Inr inp \<and>
          calls = map (\<lambda>q. (queryOf ns q, inp)) (fQueries @ wQueries)))"
proof -
  have "length calls = length (Split data separator) * (length fQueries + length wQueries)"
    by (rule processFile_Return(3) [OF assms])
  moreover have "Split data separator = [data] \<and>
       (\<exists>inp. Unmarshal ev data = Inr inp \<and>
          calls = map (\<lambda>q. (queryOf ns q, inp)) (fQueries @ wQueries))"
    if "\<not> sublist separator data"
  proof -
    have one: "Split data separator = [data]"
      by (rule Split_single [OF separator_not_Nil that])
    from processFile_single_part [OF assms(1) [unfolded one] assms(2)] one
    show ?thesis by simp
  qed
  ultimately show ?thesis by blast
qed

subsection \<open>The program in the small world\<close>

lemmas model_defs =
  processFile_def Get_def Ext_def classify_def parseYAML_def runQuery_def Query_Build_def
  hasResults_def queryOf_def failQ_def warnQ_def Quest_def letters_def Let_def

lemmas world_defs =
  world_def exampleFiles_def exampleStat_def exampleUnmarshal_def exampleCompiler_def
  exampleModule_def quietEngine_def denyingEngine_def numberEngine_def

lemma classify_example: "classify exampleCompiler [''main.rego''] = ([''deny''], [''warn''])"
  by (simp add: model_defs world_defs)

lemma Split_web: "Split ''web'' separator = [''web'']"
  by (simp add: Split.simps separator_def)

lemma Split_brace: "Split ''{'' separator = [''{'']"
  by (simp add: Split.simps separator_def)

lemma Split_two: "Split (''web'' @ separator @ ''hpa'') separator = [''web'', ''hpa'']"
  by (simp add: Split.simps separator_def)

lemma processFile_ok:
  "processFile (world quietEngine) ''main'' ''/ok.yaml'' [''web''] exampleCompiler [''main.rego''] =
     (Return (Inr ([None], [None])),
      [(''data.main.deny'', VString ''web''), (''data.main.warn'', VString ''web'')])"
  by (simp add: model_defs world_defs)

lemma web_no_separator: "\<not> sublist separator ''web''"
  by (simp add: separator_def sublist_Cons_right)

text \<open>
  The theorem at \<^verbatim>\<open>/ok.yaml\<close>: one part, one denial and one warning name, two calls, each
  with the whole file as input.
\<close>

theorem processFile_evaluation_calls_witness:
  "processFile (world quietEngine) ''main'' ''/ok.yaml'' (Split ''web'' separator)
      exampleCompiler [''main.rego''] =
     (Return (Inr ([None], [None])),
      [(''data.main.deny'', VString ''web''), (''data.main.warn'', VString ''web'')]) \<and>
   classify exampleCompiler [''main.rego''] = ([''deny''], [''warn'']) \<and>
   \<not> sublist separator ''web'' \<and>
   length [(''data.main.deny'', VString ''web''), (''data.main.warn'', VString ''web'')] =
     length (Split ''web'' separator) * (length [''deny''] + length [''warn'']) \<and>
   Split ''web'' separator = [''web''] \<and>
   Unmarshal (world quietEngine) ''web'' = Inr (VString ''web'') \<and>
   [(''data.main.deny'', VString ''web''), (''data.main.warn'', VString ''web'')] =
     map (\<lambda>q. (queryOf ''main'' q, VString ''web'')) ([''deny''] @ [''warn''])"
proof -
  have run: "processFile (world quietEngine) ''main'' ''/ok.yaml'' (Split ''web'' separator)
      exampleCompiler [''main.rego''] =
     (Return (Inr ([None], [None])),
      [(''data.main.deny'', VString ''web''), (''data.main.warn'', VString ''web'')])"
    by (simp only: Split_web processFile_ok)
  have un: "Unmarshal (world quietEngine) ''web'' = Inr (VString ''web'')"
    by (simp add: world_defs)
  have len: "length [(''data.main.deny'', VString ''web''), (''data.main.warn'', VString ''web'')] =
     length (Split ''web'' separator) * (length [''deny''] + length [''warn''])"
    using processFile_evaluation_calls [OF run classify_example] by (rule conjunct1)
  have q: "[(''data.main.deny'', VString ''web''), (''data.main.warn'', VString ''web'')] =
     map (\<lambda>q. (queryOf ''main'' q, VString ''web'')) ([''deny''] @ [''warn''])"
    by (simp add: queryOf_def)
  show ?thesis
    by (intro conjI run classify_example web_no_separator len Split_web un q)
qed

text \<open>
  Claim C8 as stated fails where \<open>processFile\<close> returns early: the one part of
  \<^verbatim>\<open>/bad.yaml\<close> does not decode, and no evaluation call is made where K * (N + M) = 2.
\<close>

theorem processFile_fewer_calls_counterexample:
  "Split ''{'' separator = [''{''] \<and>
   classify exampleCompiler [''main.rego''] = ([''deny''], [''warn'']) \<and>
   processFile (world quietEngine) ''main'' ''/bad.yaml'' (Split ''{'' separator)
      exampleCompiler [''main.rego''] =
     (Return (Inl (ErrorString ''unable to parse yaml: did not find expected node content'')), []) \<and>
   length (snd (processFile (world quietEngine) ''main'' ''/bad.yaml'' (Split ''{'' separator)
      exampleCompiler [''main.rego''])) \<noteq>
     length (Split ''{'' separator) *
       (length (fst (classify exampleCompiler [''main.rego''])) +
        length (snd (classify exampleCompiler [''main.rego''])))"
proof -
  have "processFile (world quietEngine) ''main'' ''/bad.yaml'' [''{'']
      exampleCompiler [''main.rego''] =
     (Return (Inl (ErrorString ''unable to parse yaml: did not find expected node content'')), [])"
    by (simp add: model_defs world_defs)
  then show ?thesis by (simp add: Split_brace classify_example)
qed

section \<open>Clean files\<close>

lemma Compiler_Build_example:
  "Compiler_Build (world engine) ''policies'' = Inr exampleCompiler"
  by (simp add: Compiler_Build_def readPolicies_def HasSuffix_def suffix_to_prefix world_def
      exampleStat_def exampleFiles_def exampleCompiler_def)

lemma loadConfigs_ok:
  "loadConfigs (world engine) [''/ok.yaml''] = Inr [''/ok.yaml'' \<mapsto> [''web'']]"
  by (simp add: loadConfigs_def world_def exampleFiles_def Split_web)

text \<open>
  Claim C1 (the code differs). \<^verbatim>\<open>/ok.yaml\<close> has one part, and every rule evaluates to the
  empty set on it: no violation message is produced. \<open>processFile\<close> appends the nil result
  of each \<open>runQuery\<close> all the same, so the \<open>CheckResult\<close> that \<open>Run\<close> records for the
  file has one nil entry in \<open>Failures\<close> and one in \<open>Warnings\<close>; neither is empty.
\<close>

theorem clean_file_has_nil_entries:
  "(case Run (world quietEngine) (NewConfChecker ''main'' ''policies'' [''/ok.yaml''])
           (exampleSchedule [''/ok.yaml'']) of
      Panic \<Rightarrow> None
    | Return (cr, err) \<Rightarrow> cr ''/ok.yaml'') =
   Some \<lparr>Failures = [None], Warnings = [None]\<rparr>"
  by (simp add: Run_def NewConfChecker_def Compiler_Build_example loadConfigs_ok
      exampleSchedule_def processFile_ok)

section \<open>Results that are not strings\<close>

text \<open>
  Claim C7 (the code differs). When the rule \<^verbatim>\<open>deny\<close> produces the number 1 instead of a
  message, \<open>runQuery\<close> does not return an error value: the type assertion panics.
\<close>

theorem runQuery_panics_on_number:
  "runQuery (world numberEngine) ''data.main.deny'' (VString ''web'') exampleCompiler = Panic"
  by (simp add: model_defs world_defs)

section \<open>Exit status\<close>

lemma main_zero_after_Run:
  assumes "Run ev (NewConfChecker (args_namespace a) (args_policyDir a) (args_configs a)) sched =
      Return (cr, None)"
  shows "main ev a sched = 0"
  using assms by (simp add: main_def confCheck_def Let_def split: prod.splits)

lemma processFile_denied:
  "processFile (world denyingEngine) ''main'' ''/ok.yaml'' [''web''] exampleCompiler [''main.rego''] =
     (Return (Inr ([Some (ErrorString ''no HPA'')], [None])),
      [(''data.main.deny'', VString ''web''), (''data.main.warn'', VString ''web'')])"
  by (simp add: model_defs world_defs)

lemma exampleSchedule_simps:
  "fileOrder (exampleSchedule fs) = fs"
  "moduleOrder (exampleSchedule fs) name = [''main.rego'']"
  "resultOrder (exampleSchedule fs) = fs"
  by (simp_all add: exampleSchedule_def)

lemma Run_denied:
  "Run (world denyingEngine) (NewConfChecker ''main'' ''policies'' [''/ok.yaml''])
       (exampleSchedule [''/ok.yaml'']) =
     Return ([''/ok.yaml'' \<mapsto> \<lparr>Failures = [Some (ErrorString ''no HPA'')], Warnings = [None]\<rparr>], None)"
  by (simp add: Run_def NewConfChecker_def Compiler_Build_example loadConfigs_ok
      exampleSchedule_simps processFile_denied)

text \<open>
  Claim C2 (the code differs). The rule \<^verbatim>\<open>deny\<close> produces the message \<^verbatim>\<open>no HPA\<close> for
  \<^verbatim>\<open>/ok.yaml\<close>; compilation and evaluation succeed. \<open>confCheck\<close> prints the failure and
  assigns it to \<open>err\<close>, then returns nil, and the exit status is 0, with and without strict
  mode.
\<close>

theorem exit_status_zero_despite_failure:
  "(case Run (world denyingEngine) (NewConfChecker ''main'' ''policies'' [''/ok.yaml''])
           (exampleSchedule [''/ok.yaml'']) of
      Panic \<Rightarrow> None
    | Return (cr, err) \<Rightarrow> cr ''/ok.yaml'') =
     Some \<lparr>Failures = [Some (ErrorString ''no HPA'')], Warnings = [None]\<rparr> \<and>
   confCheck (world denyingEngine) (exampleArgs [''/ok.yaml''] False) (exampleSchedule [''/ok.yaml'']) =
     Return (None, [''Warning: /ok.yaml - %!s(<nil>)'', ''Failure: /ok.yaml - no HPA'']) \<and>
   main (world denyingEngine) (exampleArgs [''/ok.yaml''] False) (exampleSchedule [''/ok.yaml'']) = 0 \<and>
   main (world denyingEngine) (exampleArgs [''/ok.yaml''] True) (exampleSchedule [''/ok.yaml'']) = 0"
  by (simp add: main_def confCheck_def exampleArgs_def Run_denied exampleSchedule_simps
      printer_err_def printer_warning_def printer_ok_def fmtError_def)

section \<open>A file that does not decode\<close>

lemma processParts_decode_failure:
  "part \<in> set parts \<Longrightarrow> p part = Inl e \<Longrightarrow>
     fst (processParts ev ns p c fQ wQ parts st) \<noteq> Return (Inr fw)"
proof (induction parts arbitrary: st)
  case Nil
  then show ?case by simp
next
  case (Cons x parts)
  obtain fails warns calls where st: "st = (fails, warns, calls)" by (cases st)
  show ?case
  proof (cases "p x")
    case (Inl err)
    then show ?thesis by (simp add: st)
  next
    case (Inr inp)
    with Cons.prems have "part \<in> set parts" by auto
    from Cons.IH [OF this Cons.prems(2)] Inr show ?thesis
      by (simp add: st split: prod.splits go.splits)
  qed
qed

lemma processFile_decode_failure:
  assumes "part \<in> set parts" and "Unmarshal ev part = Inl e"
  shows "fst (processFile ev ns fileName parts compiler ks) \<noteq> Return (Inr fw)"
proof (cases "Get (Unmarshal ev) fileName")
  case (Inl err)
  then show ?thesis by (simp add: processFile_def)
next
  case (Inr p)
  then have p: "p = parseYAML (Unmarshal ev)"
    by (simp add: Get_def Let_def split: if_splits)
  from assms(2) have "parseYAML (Unmarshal ev) part = Inl (ErrorString (''unable to parse yaml: '' @ Error e))"
    by (simp add: parseYAML_def)
  from processParts_decode_failure [where p = "parseYAML (Unmarshal ev)", OF assms(1) this] Inr p
  show ?thesis
    by (simp add: processFile_def split: prod.splits)
qed

lemma runFiles_outcomes:
  "runFiles ev ns c cfs mo names res = Panic \<or>
   (\<exists>err. runFiles ev ns c cfs mo names res = Return (Map.empty, Some err)) \<or>
   (\<exists>r. runFiles ev ns c cfs mo names res = Return (r, None))"
  by (induction names arbitrary: res) (auto split: option.splits go.splits sum.splits)

lemma runFiles_all_processed:
  "runFiles ev ns c cfs mo names res = Return (r, None) \<Longrightarrow> name \<in> set names \<Longrightarrow>
   cfs name = Some parts \<Longrightarrow>
     \<exists>fw. fst (processFile ev ns name parts c (mo name)) = Return (Inr fw)"
proof (induction names arbitrary: res)
  case Nil
  then show ?case by simp
next
  case (Cons n names)
  show ?case
  proof (cases "n = name")
    case True
    with Cons.prems(1,3) show ?thesis
      by (auto split: go.splits sum.splits)
  next
    case False
    with Cons.prems(2) have mem: "name \<in> set names" by simp
    from Cons.prems(1) obtain res' where "runFiles ev ns c cfs mo names res' = Return (r, None)"
      by (auto split: option.splits go.splits sum.splits)
    from Cons.IH [OF this mem Cons.prems(3)] show ?thesis .
  qed
qed

lemma processParts_parse_error:
  "part \<in> set parts \<Longrightarrow> u part = Inl e \<Longrightarrow>
     fst (processParts ev ns (parseYAML u) c fQ wQ parts st) = Panic \<or>
     (\<exists>bad e'. bad \<in> set parts \<and> u bad = Inl e' \<and>
        fst (processParts ev ns (parseYAML u) c fQ wQ parts st) =
          Return (Inl (ErrorString (''unable to parse yaml: '' @ Error e'))))"
proof (induction parts arbitrary: st)
  case Nil
  then show ?case by simp
next
  case (Cons x parts)
  obtain fails warns calls where st: "st = (fails, warns, calls)" by (cases st)
  show ?case
  proof (cases "u x")
    case (Inl e0)
    then have "fst (processParts ev ns (parseYAML u) c fQ wQ (x # parts) st) =
        Return (Inl (ErrorString (''unable to parse yaml: '' @ Error e0)))"
      by (simp add: st parseYAML_def)
    with Inl show ?thesis by auto
  next
    case (Inr inp)
    with Cons.prems have mem: "part \<in> set parts" by auto
    have py: "parseYAML u x = Inr inp" using Inr by (simp add: parseYAML_def)
    obtain r1 calls1 where r1: "runQueries ev ns inp c fQ (fails, calls) = (r1, calls1)"
      by (cases "runQueries ev ns inp c fQ (fails, calls)")
    show ?thesis
    proof (cases r1)
      case Panic
      with py r1 show ?thesis by (simp add: st)
    next
      case (Return fails1)
      obtain r2 calls2 where r2: "runQueries ev ns inp c wQ (warns, calls1) = (r2, calls2)"
        by (cases "runQueries ev ns inp c wQ (warns, calls1)")
      show ?thesis
      proof (cases r2)
        case Panic
        with py r1 Return r2 show ?thesis by (simp add: st)
      next
        case (Return warns1)
        have step: "processParts ev ns (parseYAML u) c fQ wQ (x # parts) st =
            processParts ev ns (parseYAML u) c fQ wQ parts (fails1, warns1, calls2)"
          using py r1 \<open>r1 = Return fails1\<close> r2 Return by (simp add: st)
        from Cons.IH [OF mem Cons.prems(2), of "(fails1, warns1, calls2)"]
        show ?thesis unfolding step by auto
      qed
    qed
  qed
qed

lemma processFile_parse_error:
  assumes "Ext fileName \<in> {''.yaml'', ''.yml'', ''.json''}"
    and "part \<in> set parts" and "Unmarshal ev part = Inl e"
  shows "fst (processFile ev ns fileName parts compiler ks) = Panic \<or>
     (\<exists>bad e'. bad \<in> set parts \<and> Unmarshal ev bad = Inl e' \<and>
        fst (processFile ev ns fileName parts compiler ks) =
          Return (Inl (ErrorString (''unable to parse yaml: '' @ Error e'))))"
proof -
  from assms(1) have get: "Get (Unmarshal ev) fileName = Inr (parseYAML (Unmarshal ev))"
    by (auto simp: Get_def Let_def)
  obtain fQ wQ where cl: "classify compiler ks = (fQ, wQ)"
    by (cases "classify compiler ks")
  have "processFile ev ns fileName parts compiler ks =
      processParts ev ns (parseYAML (Unmarshal ev)) compiler fQ wQ parts ([], [], [])"
    by (simp add: processFile_def get cl)
  with processParts_parse_error [where u = "Unmarshal ev", OF assms(2,3)]
  show ?thesis by simp
qed

lemma runFiles_error:
  "runFiles ev ns c cfs mo names res = Return (r, Some err) \<Longrightarrow>
     r = Map.empty \<and>
     (\<exists>n ps perr. n \<in> set names \<and> cfs n = Some ps \<and>
        fst (processFile ev ns n ps c (mo n)) = Return (Inl perr) \<and>
        err = ErrorString (''error processiong file: '' @ Error perr))"
proof (induction names arbitrary: res)
  case Nil
  then show ?case by simp
next
  case (Cons x names)
  show ?case
  proof (cases "cfs x")
    case None
    with Cons.prems have "runFiles ev ns c cfs mo names res = Return (r, Some err)" by simp
    then have "r = Map.empty \<and>
     (\<exists>n ps perr. n \<in> set names \<and> cfs n = Some ps \<and>
        fst (processFile ev ns n ps c (mo n)) = Return (Inl perr) \<and>
        err = ErrorString (''error processiong file: '' @ Error perr))"
      by (rule Cons.IH)
    then show ?thesis by auto
  next
    case (Some parts)
    show ?thesis
    proof (cases "fst (processFile ev ns x parts c (mo x))")
      case Panic
      with Some Cons.prems show ?thesis by simp
    next
      case (Return v)
      show ?thesis
      proof (cases v)
        case (Inl perr)
        with Some Return Cons.prems
        have "r = Map.empty" "err = ErrorString (''error processiong file: '' @ Error perr)"
          by simp_all
        moreover have "x \<in> set (x # names)" by simp
        ultimately show ?thesis using Some Return Inl by blast
      next
        case (Inr fw)
        obtain fs ws where fw: "fw = (fs, ws)" by (cases fw)
        with Some Return Inr Cons.prems
        have "runFiles ev ns c cfs mo names (res(x \<mapsto> \<lparr>Failures = fs, Warnings = ws\<rparr>)) =
            Return (r, Some err)"
          by simp
        then have "r = Map.empty \<and>
         (\<exists>n ps perr. n \<in> set names \<and> cfs n = Some ps \<and>
            fst (processFile ev ns n ps c (mo n)) = Return (Inl perr) \<and>
            err = ErrorString (''error processiong file: '' @ Error perr))"
          by (rule Cons.IH)
        then show ?thesis by auto
      qed
    qed
  qed
qed

text \<open>
  Claim C3, amended. When a part of a file with a supported extension does not decode,
  \<open>processFile\<close> returns for that file the parse error of a part that does not decode
  (unless an evaluation on an earlier part has panicked), and \<open>Run\<close> then does not go on
  with the other files: unless it panics, it returns an empty \<open>CheckResults\<close> together
  with the wrapped error of a file of the batch whose processing failed. The whole batch is
  aborted, and no file of the invocation appears in the results.
\<close>

theorem Run_aborts_batch_on_decode_failure:
  assumes "Compiler_Build ev (policyDir c) = Inr compiler"
    and "loadConfigs ev (configs c) = Inr cfs"
    and "name \<in> set (fileOrder sched)" and "cfs name = Some parts"
    and "Ext name \<in> {''.yaml'', ''.yml'', ''.json''}"
    and "part \<in> set parts" and "Unmarshal ev part = Inl e"
  shows
    "(fst (processFile ev (namespace c) name parts compiler (moduleOrder sched name)) = Panic \<or>
      (\<exists>bad e'. bad \<in> set parts \<and> Unmarshal ev bad = Inl e' \<and>
         fst (processFile ev (namespace c) name parts compiler (moduleOrder sched name)) =
           Return (Inl (ErrorString (''unable to parse yaml: '' @ Error e'))))) \<and>
     (Run ev c sched = Panic \<or>
      (\<exists>n ps perr. n \<in> set (fileOrder sched) \<and> cfs n = Some ps \<and>
         fst (processFile ev (namespace c) n ps compiler (moduleOrder sched n)) =
           Return (Inl perr) \<and>
         Run ev c sched =
           Return (Map.empty, Some (ErrorString (''error processiong file: '' @ Error perr)))))"
proof -
  let ?run = "runFiles ev (namespace c) compiler cfs (moduleOrder sched) (fileOrder sched) Map.empty"
  have run: "Run ev c sched = ?run"
    using assms(1,2) by (simp add: Run_def)
  have this_file: "fst (processFile ev (namespace c) name parts compiler (moduleOrder sched name)) = Panic \<or>
      (\<exists>bad e'. bad \<in> set parts \<and> Unmarshal ev bad = Inl e' \<and>
         fst (processFile ev (namespace c) name parts compiler (moduleOrder sched name)) =
           Return (Inl (ErrorString (''unable to parse yaml: '' @ Error e'))))"
    by (rule processFile_parse_error [OF assms(5,6,7)])
  have not_ok: "?run \<noteq> Return (r, None)" for r
  proof
    assume "?run = Return (r, None)"
    from runFiles_all_processed [OF this assms(3,4)]
    obtain fw where "fst (processFile ev (namespace c) name parts compiler (moduleOrder sched name)) =
        Return (Inr fw)" ..
    with processFile_decode_failure [OF assms(6,7)] show False by blast
  qed
  have batch: "?run = Panic \<or>
      (\<exists>n ps perr. n \<in> set (fileOrder sched) \<and> cfs n = Some ps \<and>
         fst (processFile ev (namespace c) n ps compiler (moduleOrder sched n)) =
           Return (Inl perr) \<and>
         ?run = Return (Map.empty, Some (ErrorString (''error processiong file: '' @ Error perr))))"
  proof (cases ?run)
    case Panic
    then show ?thesis by simp
  next
    case (Return v)
    obtain r eo where v: "v = (r, eo)" by (cases v)
    with Return not_ok obtain err where eo: "eo = Some err" by (cases eo) auto
    from runFiles_error [OF Return [unfolded v eo]] Return v eo
    show ?thesis by auto
  qed
  from this_file batch show ?thesis unfolding run by blast
qed

lemma loadConfigs_ok_bad:
  "loadConfigs (world engine) [''/ok.yaml'', ''/bad.yaml''] =
     Inr [''/ok.yaml'' \<mapsto> [''web''], ''/bad.yaml'' \<mapsto> [''{'']]"
  by (simp add: loadConfigs_def world_def exampleFiles_def Split_web Split_brace)

lemma processFile_bad:
  "processFile (world quietEngine) ''main'' ''/bad.yaml'' [''{''] exampleCompiler [''main.rego''] =
     (Return (Inl (ErrorString ''unable to parse yaml: did not find expected node content'')), [])"
  by (simp add: model_defs world_defs)

text \<open>
  Claim C3 as stated fails: \<^verbatim>\<open>/bad.yaml\<close> does not decode, and \<open>Run\<close> returns the error
  with no result for \<^verbatim>\<open>/ok.yaml\<close>, whether \<^verbatim>\<open>/ok.yaml\<close> was evaluated before
  \<^verbatim>\<open>/bad.yaml\<close> or would have been evaluated after it.
\<close>

theorem Run_drops_other_files_counterexample:
  "(case Run (world quietEngine) (NewConfChecker ''main'' ''policies'' [''/ok.yaml'', ''/bad.yaml''])
           (exampleSchedule [''/ok.yaml'', ''/bad.yaml'']) of
      Panic \<Rightarrow> None
    | Return (cr, err) \<Rightarrow> Some (cr ''/ok.yaml'', err)) =
   Some (None, Some (ErrorString
     ''error processiong file: unable to parse yaml: did not find expected node content'')) \<and>
   (case Run (world quietEngine) (NewConfChecker ''main'' ''policies'' [''/ok.yaml'', ''/bad.yaml''])
           (exampleSchedule [''/bad.yaml'', ''/ok.yaml'']) of
      Panic \<Rightarrow> None
    | Return (cr, err) \<Rightarrow> Some (cr ''/ok.yaml'', err)) =
   Some (None, Some (ErrorString
     ''error processiong file: unable to parse yaml: did not find expected node content''))"
  by (simp add: Run_def NewConfChecker_def Compiler_Build_example loadConfigs_ok_bad
      exampleSchedule_simps processFile_ok processFile_bad)

text \<open>
  The theorem in the same run.
\<close>

theorem Run_aborts_batch_on_decode_failure_witness:
  "Compiler_Build (world quietEngine)
     (policyDir (NewConfChecker ''main'' ''policies'' [''/ok.yaml'', ''/bad.yaml''])) =
     Inr exampleCompiler \<and>
   loadConfigs (world quietEngine)
     (configs (NewConfChecker ''main'' ''policies'' [''/ok.yaml'', ''/bad.yaml''])) =
     Inr [''/ok.yaml'' \<mapsto> [''web''], ''/bad.yaml'' \<mapsto> [''{'']] \<and>
   ''/bad.yaml'' \<in> set (fileOrder (exampleSchedule [''/ok.yaml'', ''/bad.yaml''])) \<and>
   [''/ok.yaml'' \<mapsto> [''web''], ''/bad.yaml'' \<mapsto> [''{'']] ''/bad.yaml'' = Some [''{''] \<and>
   Ext ''/bad.yaml'' \<in> {''.yaml'', ''.yml'', ''.json''} \<and>
   ''{'' \<in> set [''{''] \<and>
   Unmarshal (world quietEngine) ''{'' = Inl (ErrorString ''did not find expected node content'') \<and>
   fst (processFile (world quietEngine) ''main'' ''/bad.yaml'' [''{''] exampleCompiler [''main.rego'']) =
     Return (Inl (ErrorString ''unable to parse yaml: did not find expected node content'')) \<and>
   Run (world quietEngine) (NewConfChecker ''main'' ''policies'' [''/ok.yaml'', ''/bad.yaml''])
        (exampleSchedule [''/ok.yaml'', ''/bad.yaml'']) =
     Return (Map.empty, Some (ErrorString
       ''error processiong file: unable to parse yaml: did not find expected node content'')) \<and>
   (Run (world quietEngine) (NewConfChecker ''main'' ''policies'' [''/ok.yaml'', ''/bad.yaml''])
        (exampleSchedule [''/ok.yaml'', ''/bad.yaml'']) = Panic \<or>
    (\<exists>n ps perr. n \<in> set (fileOrder (exampleSchedule [''/ok.yaml'', ''/bad.yaml''])) \<and>
       [''/ok.yaml'' \<mapsto> [''web''], ''/bad.yaml'' \<mapsto> [''{'']] n = Some ps \<and>
       fst (processFile (world quietEngine)
              (namespace (NewConfChecker ''main'' ''policies'' [''/ok.yaml'', ''/bad.yaml'']))
              n ps exampleCompiler
              (moduleOrder (exampleSchedule [''/ok.yaml'', ''/bad.yaml'']) n)) =
         Return (Inl perr) \<and>
       Run (world quietEngine) (NewConfChecker ''main'' ''policies'' [''/ok.yaml'', ''/bad.yaml''])
           (exampleSchedule [''/ok.yaml'', ''/bad.yaml'']) =
         Return (Map.empty, Some (ErrorString (''error processiong file: '' @ Error perr)))))"
proof -
  have h1: "Compiler_Build (world quietEngine)
     (policyDir (NewConfChecker ''main'' ''policies'' [''/ok.yaml'', ''/bad.yaml''])) =
     Inr exampleCompiler"
    by (simp add: NewConfChecker_def Compiler_Build_example)
  have h2: "loadConfigs (world quietEngine)
     (configs (NewConfChecker ''main'' ''policies'' [''/ok.yaml'', ''/bad.yaml''])) =
     Inr [''/ok.yaml'' \<mapsto> [''web''], ''/bad.yaml'' \<mapsto> [''{'']]"
    by (simp add: NewConfChecker_def loadConfigs_ok_bad)
  have h3: "''/bad.yaml'' \<in> set (fileOrder (exampleSchedule [''/ok.yaml'', ''/bad.yaml'']))"
    by (simp add: exampleSchedule_simps)
  have h4: "[''/ok.yaml'' \<mapsto> [''web''], ''/bad.yaml'' \<mapsto> [''{'']] ''/bad.yaml'' = Some [''{'']"
    by simp
  have h5: "Ext ''/bad.yaml'' \<in> {''.yaml'', ''.yml'', ''.json''}"
    by (simp add: Ext_def)
  have h6: "''{'' \<in> set [''{'']"
    by simp
  have h7: "Unmarshal (world quietEngine) ''{'' =
      Inl (ErrorString ''did not find expected node content'')"
    by (simp add: world_def exampleUnmarshal_def)
  have pf: "fst (processFile (world quietEngine) ''main'' ''/bad.yaml'' [''{''] exampleCompiler
      [''main.rego'']) =
     Return (Inl (ErrorString ''unable to parse yaml: did not find expected node content''))"
    by (simp add: processFile_bad)
  have run: "Run (world quietEngine) (NewConfChecker ''main'' ''policies'' [''/ok.yaml'', ''/bad.yaml''])
        (exampleSchedule [''/ok.yaml'', ''/bad.yaml'']) =
     Return (Map.empty, Some (ErrorString
       ''error processiong file: unable to parse yaml: did not find expected node content''))"
    by (simp add: Run_def NewConfChecker_def Compiler_Build_example loadConfigs_ok_bad
      exampleSchedule_simps processFile_ok processFile_bad)
  note th = Run_aborts_batch_on_decode_failure [OF h1 h2 h3 h4 h5 h6 h7]
  show ?thesis
    by (intro conjI h1 h2 h3 h4 h5 h6 h7 pf run th [THEN conjunct2])
qed

section \<open>The matcher and the language of a pattern\<close>

lemma nullable_lang: "nullable r \<longleftrightarrow> [] \<in> lang r"
  by (induction r) (auto simp: conc_def intro: star_Nil)

lemma Cons_in_conc:
  "c # w \<in> conc A B \<longleftrightarrow>
     ([] \<in> A \<and> c # w \<in> B) \<or> (\<exists>u v. w = u @ v \<and> c # u \<in> A \<and> v \<in> B)"
proof
  assume "c # w \<in> conc A B"
  then obtain u v where uv: "c # w = u @ v" "u \<in> A" "v \<in> B"
    by (auto simp: conc_def)
  show "([] \<in> A \<and> c # w \<in> B) \<or> (\<exists>u v. w = u @ v \<and> c # u \<in> A \<and> v \<in> B)"
  proof (cases u)
    case Nil
    with uv show ?thesis by simp
  next
    case (Cons x xs)
    with uv have "w = xs @ v" "c # xs \<in> A" by simp_all
    with uv(3) show ?thesis by blast
  qed
next
  assume "([] \<in> A \<and> c # w \<in> B) \<or> (\<exists>u v. w = u @ v \<and> c # u \<in> A \<and> v \<in> B)"
  then show "c # w \<in> conc A B"
  proof
    assume "[] \<in> A \<and> c # w \<in> B"
    then have "[] @ (c # w) \<in> conc A B" unfolding conc_def by blast
    then show ?thesis by simp
  next
    assume "\<exists>u v. w = u @ v \<and> c # u \<in> A \<and> v \<in> B"
    then obtain u v where "w = u @ v" "c # u \<in> A" "v \<in> B" by blast
    then have "(c # u) @ v \<in> conc A B" unfolding conc_def by blast
    with \<open>w = u @ v\<close> show ?thesis by simp
  qed
qed

lemma star_Cons_split:
  "x \<in> star A \<Longrightarrow> x = c # w \<Longrightarrow> \<exists>u v. w = u @ v \<and> c # u \<in> A \<and> v \<in> star A"
proof (induction arbitrary: w rule: star.induct)
  case star_Nil
  then show ?case by simp
next
  case (star_App u v)
  show ?case
  proof (cases u)
    case Nil
    with star_App.prems have "v = c # w" by simp
    from star_App.IH [OF this] show ?thesis .
  next
    case (Cons y ys)
    with star_App.prems have "w = ys @ v" "c # ys \<in> A"
      using star_App.hyps(1) by simp_all
    with star_App.hyps(2) show ?thesis by blast
  qed
qed

lemma Cons_in_star:
  "c # w \<in> star A \<longleftrightarrow> (\<exists>u v. w = u @ v \<and> c # u \<in> A \<and> v \<in> star A)"
proof
  assume "c # w \<in> star A"
  then show "\<exists>u v. w = u @ v \<and> c # u \<in> A \<and> v \<in> star A"
    by (rule star_Cons_split) simp
next
  assume "\<exists>u v. w = u @ v \<and> c # u \<in> A \<and> v \<in> star A"
  then obtain u v where "w = u @ v" "c # u \<in> A" "v \<in> star A" by blast
  then have "(c # u) @ v \<in> star A" by (blast intro: star_App)
  with \<open>w = u @ v\<close> show "c # w \<in> star A" by simp
qed

lemma deriv_lang: "w \<in> lang (deriv c r) \<longleftrightarrow> c # w \<in> lang r"
proof (induction r arbitrary: w)
  case (Cat r s)
  show ?case
  proof (cases "nullable r")
    case True
    then have "[] \<in> lang r" by (simp add: nullable_lang)
    then show ?thesis
      using True Cat.IH by (auto simp: Cons_in_conc) (auto simp: conc_def)
  next
    case False
    then have "[] \<notin> lang r" by (simp add: nullable_lang)
    then show ?thesis
      using False Cat.IH by (auto simp: Cons_in_conc) (auto simp: conc_def)
  qed
next
  case (Star r)
  show ?case
    using Star.IH by (auto simp: Cons_in_star) (auto simp: conc_def)
qed auto

lemma matchPrefix_lang: "matchPrefix r s \<longleftrightarrow> (\<exists>u. u \<in> lang r \<and> prefix u s)"
proof (induction s arbitrary: r)
  case Nil
  show ?case by (simp add: nullable_lang)
next
  case (Cons c cs)
  have "(\<exists>u. u \<in> lang r \<and> prefix u (c # cs)) \<longleftrightarrow>
      [] \<in> lang r \<or> (\<exists>u. c # u \<in> lang r \<and> prefix u cs)"
  proof
    assume "\<exists>u. u \<in> lang r \<and> prefix u (c # cs)"
    then obtain u where u: "u \<in> lang r" "prefix u (c # cs)" by blast
    then show "[] \<in> lang r \<or> (\<exists>u. c # u \<in> lang r \<and> prefix u cs)"
      by (cases u) auto
  next
    assume "[] \<in> lang r \<or> (\<exists>u. c # u \<in> lang r \<and> prefix u cs)"
    then show "\<exists>u. u \<in> lang r \<and> prefix u (c # cs)"
    proof
      assume "[] \<in> lang r"
      then show ?thesis by (intro exI [of _ "[]"]) simp
    next
      assume "\<exists>u. c # u \<in> lang r \<and> prefix u cs"
      then obtain u where "c # u \<in> lang r" "prefix u cs" by blast
      then show ?thesis by (intro exI [of _ "c # u"]) simp
    qed
  qed
  then show ?case by (simp add: Cons.IH nullable_lang deriv_lang)
qed

lemma MatchString_lang: "MatchString r s \<longleftrightarrow> (\<exists>u. u \<in> lang r \<and> sublist u s)"
proof (induction s)
  case Nil
  show ?case by (simp add: matchPrefix_lang)
next
  case (Cons c cs)
  show ?case
    by (simp only: MatchString.simps Cons.IH matchPrefix_lang sublist_Cons_right) blast
qed

lemma keyword_in_lang:
  "kw @ [] \<in> lang (Cat (literal kw) (Cat (Quest (Lit CHR ''_'')) (Star letters)))"
proof -
  have "kw \<in> lang (literal kw)"
    by (induction kw) (auto simp: conc_def)
  moreover have "[] \<in> lang (Cat (Quest (Lit CHR ''_'')) (Star letters))"
    using nullable_lang [of "Cat (Quest (Lit CHR ''_'')) (Star letters)"]
    by (simp add: Quest_def)
  ultimately show ?thesis
    unfolding lang.simps(6) [of "literal kw"] conc_def by blast
qed

lemma lang_literal: "u \<in> lang (literal kw) \<Longrightarrow> u = kw"
  by (induction kw arbitrary: u) (auto simp: conc_def)

lemma lang_keyword_prefix:
  assumes "u \<in> lang (Cat (literal kw) r)"
  shows "prefix kw u"
proof -
  from assms obtain a b where "u = a @ b" "a \<in> lang (literal kw)"
    by (auto simp: conc_def)
  with lang_literal show ?thesis by (auto simp: prefix_def)
qed

lemma MatchString_keyword:
  "MatchString (Cat (literal kw) (Cat (Quest (Lit CHR ''_'')) (Star letters))) n \<longleftrightarrow> sublist kw n"
proof
  assume "MatchString (Cat (literal kw) (Cat (Quest (Lit CHR ''_'')) (Star letters))) n"
  then obtain u where u: "u \<in> lang (Cat (literal kw) (Cat (Quest (Lit CHR ''_'')) (Star letters)))"
    and sub: "sublist u n"
    by (auto simp: MatchString_lang)
  from lang_keyword_prefix [OF u] have "sublist kw u" by (rule prefix_imp_sublist)
  with sub show "sublist kw n" by (rule sublist_order.order.trans [rotated])
next
  assume "sublist kw n"
  with keyword_in_lang [of kw] show
    "MatchString (Cat (literal kw) (Cat (Quest (Lit CHR ''_'')) (Star letters))) n"
    unfolding MatchString_lang by auto
qed

lemma MatchString_failQ: "MatchString failQ n \<longleftrightarrow> sublist ''deny'' n"
  unfolding failQ_def by (rule MatchString_keyword)

lemma MatchString_warnQ: "MatchString warnQ n \<longleftrightarrow> sublist ''warn'' n"
  unfolding warnQ_def by (rule MatchString_keyword)

section \<open>The classifier\<close>

lemma classifyRules_filter:
  "classifyRules rs (fq, wq) =
     (fq @ filter (MatchString failQ) (map HeadName rs),
      wq @ filter (MatchString warnQ) (map HeadName rs))"
  by (induction rs arbitrary: fq wq) (simp_all add: Let_def)

lemma classifyModules_concat:
  "classifyModules ms ks (fq, wq) =
     (fq @ concat (map (\<lambda>k. filter (MatchString failQ) (ruleNames ms k)) ks),
      wq @ concat (map (\<lambda>k. filter (MatchString warnQ) (ruleNames ms k)) ks))"
  by (induction ks arbitrary: fq wq)
    (simp_all add: ruleNames_def classifyRules_filter split: option.splits)

lemma classify_concat:
  "classify compiler ks =
     (concat (map (\<lambda>k. filter (MatchString failQ) (ruleNames (Modules compiler) k)) ks),
      concat (map (\<lambda>k. filter (MatchString warnQ) (ruleNames (Modules compiler) k)) ks))"
  by (simp add: classify_def classifyModules_concat)

lemma classify_by_substring:
  "classify compiler ks =
     (concat (map (\<lambda>k. filter (sublist ''deny'') (ruleNames (Modules compiler) k)) ks),
      concat (map (\<lambda>k. filter (sublist ''warn'') (ruleNames (Modules compiler) k)) ks))"
proof -
  have "MatchString failQ = sublist ''deny''" and "MatchString warnQ = sublist ''warn''"
    by (simp_all add: fun_eq_iff MatchString_failQ MatchString_warnQ)
  then show ?thesis by (simp add: classify_concat)
qed

lemma mset_concat_map: "mset (concat (map f ks)) = (\<Sum>k\<in>#mset ks. mset (f k))"
  by (induction ks) simp_all

lemma visits_same_mset:
  assumes "visits m ks1" and "visits m ks2"
  shows "mset ks1 = mset ks2"
  using assms by (simp add: visits_def set_eq_iff_mset_eq_distinct [symmetric])

lemma visits_single:
  assumes "visits [k \<mapsto> v] ks"
  shows "ks = [k]"
proof -
  from assms have d: "distinct ks" and s: "set ks = {k}" by (simp_all add: visits_def)
  then obtain x xs where ks: "ks = x # xs" by (cases ks) auto
  with s have "x = k" by auto
  moreover from d s ks have "xs = []" by (cases xs) auto
  ultimately show ?thesis using ks by simp
qed

text \<open>
  Claim C5, amended. Each run of the classifier produces, for the denial names and for the
  warning names, the blocks of the modules one after the other, in the order in which the
  run visits the modules of the Go map; the block of a module is its matching rule names
  in source order. Two runs on the same compiled rule-set visit the same modules, each
  once, so their sequences differ at most in the order of these blocks, and are
  permutations of each other. For a rule-set of one module both runs give the same
  sequences.
\<close>

theorem classify_up_to_module_order:
  assumes "visits (Modules compiler) ks1" and "visits (Modules compiler) ks2"
  shows "mset ks1 = mset ks2 \<and>
    classify compiler ks1 =
      (concat (map (\<lambda>k. filter (MatchString failQ) (ruleNames (Modules compiler) k)) ks1),
       concat (map (\<lambda>k. filter (MatchString warnQ) (ruleNames (Modules compiler) k)) ks1)) \<and>
    classify compiler ks2 =
      (concat (map (\<lambda>k. filter (MatchString failQ) (ruleNames (Modules compiler) k)) ks2),
       concat (map (\<lambda>k. filter (MatchString warnQ) (ruleNames (Modules compiler) k)) ks2)) \<and>
    mset (fst (classify compiler ks1)) = mset (fst (classify compiler ks2)) \<and>
    mset (snd (classify compiler ks1)) = mset (snd (classify compiler ks2)) \<and>
    (\<forall>k m. Modules compiler = [k \<mapsto> m] \<longrightarrow>
       classify compiler ks1 = classify compiler ks2 \<and>
       classify compiler ks1 =
         (filter (MatchString failQ) (map HeadName (Rules m)),
          filter (MatchString warnQ) (map HeadName (Rules m))))"
proof -
  have ms: "mset ks1 = mset ks2"
    by (rule visits_same_mset [OF assms])
  have c1: "classify compiler ks1 =
      (concat (map (\<lambda>k. filter (MatchString failQ) (ruleNames (Modules compiler) k)) ks1),
       concat (map (\<lambda>k. filter (MatchString warnQ) (ruleNames (Modules compiler) k)) ks1))"
    by (rule classify_concat)
  have c2: "classify compiler ks2 =
      (concat (map (\<lambda>k. filter (MatchString failQ) (ruleNames (Modules compiler) k)) ks2),
       concat (map (\<lambda>k. filter (MatchString warnQ) (ruleNames (Modules compiler) k)) ks2))"
    by (rule classify_concat)
  have m1: "mset (fst (classify compiler ks1)) = mset (fst (classify compiler ks2))"
    by (simp add: classify_concat mset_concat_map ms)
  have m2: "mset (snd (classify compiler ks1)) = mset (snd (classify compiler ks2))"
    by (simp add: classify_concat mset_concat_map ms)
  have one: "classify compiler ks1 = classify compiler ks2 \<and>
       classify compiler ks1 =
         (filter (MatchString failQ) (map HeadName (Rules m)),
          filter (MatchString warnQ) (map HeadName (Rules m)))"
    if single: "Modules compiler = [k \<mapsto> m]" for k m
  proof -
    from assms have "ks1 = [k]" and "ks2 = [k]"
      unfolding single by (simp_all add: visits_single)
    then show ?thesis by (simp add: classify_concat ruleNames_def single)
  qed
  show ?thesis
    by (intro conjI allI impI ms c1 c2 m1 m2 one [THEN conjunct1] one [THEN conjunct2])
qed

text \<open>
  Claim C5 as stated fails for the rule-set of \<^verbatim>\<open>a.rego\<close> and \<^verbatim>\<open>b.rego\<close>: the two orders
  of visiting the modules give different denial sequences.
\<close>

theorem classify_order_counterexample:
  "visits (Modules twoModules) [''a.rego'', ''b.rego''] \<and>
   visits (Modules twoModules) [''b.rego'', ''a.rego''] \<and>
   classify twoModules [''a.rego'', ''b.rego''] = ([''deny_a'', ''deny_b''], []) \<and>
   classify twoModules [''b.rego'', ''a.rego''] = ([''deny_b'', ''deny_a''], []) \<and>
   classify twoModules [''a.rego'', ''b.rego''] \<noteq> classify twoModules [''b.rego'', ''a.rego'']"
proof -
  have v: "visits (Modules twoModules) [''a.rego'', ''b.rego'']"
      "visits (Modules twoModules) [''b.rego'', ''a.rego'']"
    by (auto simp: visits_def twoModules_def)
  have c: "classify twoModules [''a.rego'', ''b.rego''] = ([''deny_a'', ''deny_b''], [])"
      "classify twoModules [''b.rego'', ''a.rego''] = ([''deny_b'', ''deny_a''], [])"
    by (simp_all add: classify_def twoModules_def failQ_def warnQ_def Quest_def letters_def)
  show ?thesis by (simp add: v c)
qed

lemma ruleNames_twoModules:
  "ruleNames (Modules twoModules) ''a.rego'' = [''deny_a'']"
  "ruleNames (Modules twoModules) ''b.rego'' = [''deny_b'']"
  by (simp_all add: ruleNames_def twoModules_def)

text \<open>
  The theorem for the two orders of \<open>twoModules\<close> and for the one module of the example
  policy.
\<close>

theorem classify_up_to_module_order_witness:
  "visits (Modules twoModules) [''a.rego'', ''b.rego''] \<and>
   visits (Modules twoModules) [''b.rego'', ''a.rego''] \<and>
   mset [''a.rego'', ''b.rego''] = mset [''b.rego'', ''a.rego''] \<and>
   classify twoModules [''a.rego'', ''b.rego''] =
     (concat (map (\<lambda>k. filter (MatchString failQ) (ruleNames (Modules twoModules) k))
        [''a.rego'', ''b.rego'']),
      concat (map (\<lambda>k. filter (MatchString warnQ) (ruleNames (Modules twoModules) k))
        [''a.rego'', ''b.rego''])) \<and>
   classify twoModules [''b.rego'', ''a.rego''] =
     (concat (map (\<lambda>k. filter (MatchString failQ) (ruleNames (Modules twoModules) k))
        [''b.rego'', ''a.rego'']),
      concat (map (\<lambda>k. filter (MatchString warnQ) (ruleNames (Modules twoModules) k))
        [''b.rego'', ''a.rego''])) \<and>
   filter (MatchString failQ) (ruleNames (Modules twoModules) ''a.rego'') = [''deny_a''] \<and>
   filter (MatchString failQ) (ruleNames (Modules twoModules) ''b.rego'') = [''deny_b''] \<and>
   mset (fst (classify twoModules [''a.rego'', ''b.rego''])) =
     mset (fst (classify twoModules [''b.rego'', ''a.rego''])) \<and>
   mset (snd (classify twoModules [''a.rego'', ''b.rego''])) =
     mset (snd (classify twoModules [''b.rego'', ''a.rego''])) \<and>
   visits (Modules exampleCompiler) [''main.rego''] \<and>
   Modules exampleCompiler = [''main.rego'' \<mapsto> exampleModule] \<and>
   classify exampleCompiler [''main.rego''] =
     (filter (MatchString failQ) (map HeadName (Rules exampleModule)),
      filter (MatchString warnQ) (map HeadName (Rules exampleModule))) \<and>
   classify exampleCompiler [''main.rego''] = ([''deny''], [''warn''])"
proof -
  have v: "visits (Modules twoModules) [''a.rego'', ''b.rego'']"
      "visits (Modules twoModules) [''b.rego'', ''a.rego'']"
    by (auto simp: visits_def twoModules_def)
  have v1: "visits (Modules exampleCompiler) [''main.rego'']"
    by (simp add: visits_def exampleCompiler_def)
  have m1: "Modules exampleCompiler = [''main.rego'' \<mapsto> exampleModule]"
    by (simp add: exampleCompiler_def)
  have b: "filter (MatchString failQ) (ruleNames (Modules twoModules) ''a.rego'') = [''deny_a'']"
      "filter (MatchString failQ) (ruleNames (Modules twoModules) ''b.rego'') = [''deny_b'']"
    by (simp_all add: ruleNames_twoModules failQ_def Quest_def letters_def)
  note two = classify_up_to_module_order [OF v]
  note one = classify_up_to_module_order [OF v1 v1]
  have t1: "mset [''a.rego'', ''b.rego''] = mset [''b.rego'', ''a.rego'']"
    using two by (rule conjunct1)
  note t2 = two [THEN conjunct2, THEN conjunct1]
  note t3 = two [THEN conjunct2, THEN conjunct2, THEN conjunct1]
  note t4 = two [THEN conjunct2, THEN conjunct2, THEN conjunct2, THEN conjunct1]
  note t5 = two [THEN conjunct2, THEN conjunct2, THEN conjunct2, THEN conjunct2, THEN conjunct1]
  note o6 = one [THEN conjunct2, THEN conjunct2, THEN conjunct2, THEN conjunct2, THEN conjunct2]
  from o6 m1 have e: "classify exampleCompiler [''main.rego''] =
     (filter (MatchString failQ) (map HeadName (Rules exampleModule)),
      filter (MatchString warnQ) (map HeadName (Rules exampleModule)))"
    by blast
  show ?thesis
    by (intro conjI v v1 m1 b t1 t2 t3 t4 t5 e classify_example)
qed

text \<open>
  Claim C4 (the code differs). The helper rule \<^verbatim>\<open>is_denylisted\<close> begins neither with
  \<^verbatim>\<open>deny\<close> nor with \<^verbatim>\<open>warn\<close>. The patterns are not anchored, and \<open>MatchString\<close> finds
  \<^verbatim>\<open>deny\<close> inside the name: the classifier puts it in the denial sequence and
  \<open>processFile\<close> evaluates it as a policy check.
\<close>

theorem helper_rule_classified_as_denial:
  "\<not> prefix ''deny'' ''is_denylisted'' \<and> \<not> prefix ''warn'' ''is_denylisted'' \<and>
   classify helperModule [''main.rego''] = ([''is_denylisted''], []) \<and>
   snd (processFile (world quietEngine) ''main'' ''/ok.yaml'' [''web''] helperModule [''main.rego'']) =
     [(''data.main.is_denylisted'', VString ''web'')]"
  by (simp add: model_defs world_defs helperModule_def)

section \<open>Reading the policies\<close>

lemma readModules_dom:
  "readModules ev dirPath files ms = Inr ms' \<Longrightarrow>
     dom ms' = dom ms \<union> {Name g |g. g \<in> set files \<and> HasSuffix (Name g) ''.rego''}"
proof (induction files arbitrary: ms)
  case Nil
  then show ?case by simp
next
  case (Cons x files)
  show ?case
  proof (cases "HasSuffix (Name x) ''.rego''")
    case False
    with Cons.prems have "readModules ev dirPath files ms = Inr ms'" by simp
    from Cons.IH [OF this] False show ?thesis by auto
  next
    case True
    with Cons.prems obtain parsed where
      "readModules ev dirPath files (ms(Name x \<mapsto> parsed)) = Inr ms'"
      by (auto split: sum.splits)
    then have "dom ms' = dom (ms(Name x \<mapsto> parsed)) \<union>
        {Name g |g. g \<in> set files \<and> HasSuffix (Name g) ''.rego''}"
      by (rule Cons.IH)
    also have "dom (ms(Name x \<mapsto> parsed)) = insert (Name x) (dom ms)"
      by simp
    finally have "dom ms' = insert (Name x) (dom ms) \<union>
        {Name g |g. g \<in> set files \<and> HasSuffix (Name g) ''.rego''}" .
    with True show ?thesis by auto
  qed
qed

text \<open>
  Claim C6, amended. The suffix filter applies to every candidate, also to a path that is
  a single file: such a file is read and parsed alone when its name ends in \<^verbatim>\<open>.rego\<close>, and
  is skipped otherwise, which gives an empty set of modules. For a directory the modules
  are those of the entries whose names end in \<^verbatim>\<open>.rego\<close>.
\<close>

theorem readPolicies_filters_every_candidate:
  assumes "Stat ev pPath = Inr info"
  shows "(\<not> IsDir info \<longrightarrow>
      readPolicies ev pPath =
        (if HasSuffix (Name info) ''.rego'' then
           (case ReadFile ev (Dir ev pPath @ ''/'' @ Name info) of
              Inl err \<Rightarrow> Inl err
            | Inr out \<Rightarrow>
                (case ParseModule ev (Name info) out of
                   Inl err \<Rightarrow> Inl err
                 | Inr parsed \<Rightarrow> Inr [Name info \<mapsto> parsed]))
         else Inr Map.empty)) \<and>
    (\<forall>files ms. IsDir info \<longrightarrow> ReadDir ev pPath = Inr files \<longrightarrow> readPolicies ev pPath = Inr ms \<longrightarrow>
       dom ms = {Name g |g. g \<in> set files \<and> HasSuffix (Name g) ''.rego''})"
proof -
  have "readPolicies ev pPath =
        (if HasSuffix (Name info) ''.rego'' then
           (case ReadFile ev (Dir ev pPath @ ''/'' @ Name info) of
              Inl err \<Rightarrow> Inl err
            | Inr out \<Rightarrow>
                (case ParseModule ev (Name info) out of
                   Inl err \<Rightarrow> Inl err
                 | Inr parsed \<Rightarrow> Inr [Name info \<mapsto> parsed]))
         else Inr Map.empty)"
    if "\<not> IsDir info"
    using assms that by (simp add: readPolicies_def split: sum.splits)
  moreover have "dom ms = {Name g |g. g \<in> set files \<and> HasSuffix (Name g) ''.rego''}"
    if "IsDir info" and "ReadDir ev pPath = Inr files" and "readPolicies ev pPath = Inr ms"
    for files ms
  proof -
    from assms that have "readModules ev pPath files Map.empty = Inr ms"
      by (simp add: readPolicies_def)
    from readModules_dom [OF this] show ?thesis by simp
  qed
  ultimately show ?thesis by blast
qed

text \<open>
  Claim C6 as stated fails: the single file \<^verbatim>\<open>rules.txt\<close> is neither parsed nor compiled;
  the build succeeds with no module.
\<close>

theorem readPolicies_skips_single_file_counterexample:
  "Stat (world quietEngine) ''rules.txt'' = Inr (FileInfo ''rules.txt'' False) \<and>
   readPolicies (world quietEngine) ''rules.txt'' = Inr Map.empty \<and>
   Compiler_Build (world quietEngine) ''rules.txt'' = Inr (Compiler Map.empty)"
  by (simp add: Compiler_Build_def readPolicies_def HasSuffix_def suffix_to_prefix world_def
      exampleStat_def)

text \<open>
  The theorem at the single files \<^verbatim>\<open>one.rego\<close> and \<^verbatim>\<open>rules.txt\<close> and at the directory
  \<^verbatim>\<open>policies\<close>.
\<close>

theorem readPolicies_filters_every_candidate_witness:
  "Stat (world quietEngine) ''one.rego'' = Inr (FileInfo ''one.rego'' False) \<and>
   \<not> IsDir (FileInfo ''one.rego'' False) \<and>
   HasSuffix ''one.rego'' ''.rego'' \<and>
   readPolicies (world quietEngine) ''one.rego'' = Inr [''one.rego'' \<mapsto> exampleModule] \<and>
   Stat (world quietEngine) ''rules.txt'' = Inr (FileInfo ''rules.txt'' False) \<and>
   \<not> HasSuffix ''rules.txt'' ''.rego'' \<and>
   readPolicies (world quietEngine) ''rules.txt'' = Inr Map.empty \<and>
   Stat (world quietEngine) ''policies'' = Inr (FileInfo ''policies'' True) \<and>
   ReadDir (world quietEngine) ''policies'' = Inr [FileInfo ''main.rego'' False] \<and>
   readPolicies (world quietEngine) ''policies'' = Inr [''main.rego'' \<mapsto> exampleModule] \<and>
   dom [''main.rego'' \<mapsto> exampleModule] = {''main.rego''}"
proof -
  have s1: "Stat (world quietEngine) ''one.rego'' = Inr (FileInfo ''one.rego'' False)"
    and s2: "Stat (world quietEngine) ''rules.txt'' = Inr (FileInfo ''rules.txt'' False)"
    and s3: "Stat (world quietEngine) ''policies'' = Inr (FileInfo ''policies'' True)"
    and rd: "ReadDir (world quietEngine) ''policies'' = Inr [FileInfo ''main.rego'' False]"
    by (simp_all add: world_def exampleStat_def)
  have sfx: "HasSuffix ''one.rego'' ''.rego''" "\<not> HasSuffix ''rules.txt'' ''.rego''"
    by (simp_all add: HasSuffix_def suffix_to_prefix)
  have r1: "readPolicies (world quietEngine) ''one.rego'' = Inr [''one.rego'' \<mapsto> exampleModule]"
    using readPolicies_filters_every_candidate [OF s1] sfx
    by (simp add: world_def exampleFiles_def)
  have r2: "readPolicies (world quietEngine) ''rules.txt'' = Inr Map.empty"
    using readPolicies_filters_every_candidate [OF s2] sfx by simp
  have r3: "readPolicies (world quietEngine) ''policies'' = Inr [''main.rego'' \<mapsto> exampleModule]"
    by (simp add: readPolicies_def HasSuffix_def suffix_to_prefix world_def exampleStat_def
        exampleFiles_def)
  have d: "dom [''main.rego'' \<mapsto> exampleModule] = {''main.rego''}"
    by simp
  have nd: "\<not> IsDir (FileInfo ''one.rego'' False)"
    by simp
  show ?thesis
    by (intro conjI s1 s2 s3 rd sfx r1 r2 r3 d nd)
qed

end
